theory Spec2Isabelle
  imports Complex_Main "HOL-Library.AList"
begin

section \<open>JavaScript objects used as string-keyed records\<close>

text \<open>
  The hooks keep their per-stem state in plain objects (\<^verbatim>\<open>Record<string, T>\<close>). An object
  is modelled as an association list in property order. Reading a property is
  \<^const>\<open>map_of\<close> (a missing key reads \<^verbatim>\<open>undefined\<close>, here \<^const>\<open>None\<close>); the spread
  update \<^verbatim>\<open>{ ...prev, [k]: v }\<close> is \<^const>\<open>AList.update\<close>: an existing property keeps its
  place and gets the new value, a new property is appended.
\<close>

type_synonym 'v jsrecord = "(string \<times> 'v) list"

text \<open>\<^verbatim>\<open>Object.fromEntries(entries)\<close>: later entries overwrite earlier ones.\<close>

definition fromEntries :: "(string \<times> 'v) list \<Rightarrow> 'v jsrecord" where
  "fromEntries es = foldl (\<lambda>obj (k, v). AList.update k v obj) [] es"

text \<open>Truthiness of a boolean property that may be missing: \<^verbatim>\<open>undefined\<close> is falsy.\<close>

definition truthy :: "bool option \<Rightarrow> bool" where
  "truthy b = (case b of None \<Rightarrow> False | Some v \<Rightarrow> v)"

section \<open>The mix engine: \<^verbatim>\<open>src/hooks/useAudioPlayer.ts\<close>\<close>

text \<open>
  Numbers are JavaScript doubles in the source. Volumes, gains and times are modelled as
  exact rationals, so \<^verbatim>\<open>volume / 100\<close> is the exact quotient.
  Of an \<^verbatim>\<open>HTMLAudioElement\<close> the hook writes \<^verbatim>\<open>src\<close>, \<^verbatim>\<open>volume\<close> and \<^verbatim>\<open>currentTime\<close>
  and calls \<^verbatim>\<open>play()\<close> and \<^verbatim>\<open>pause()\<close>; these are the fields of the model. A fresh
  element has volume 1, position 0 and is paused.
\<close>

record HTMLAudioElement =
  a_src :: string
  a_volume :: rat
  a_currentTime :: rat
  a_paused :: bool

definition new_Audio :: HTMLAudioElement where
  "new_Audio = \<lparr>a_src = [], a_volume = 1, a_currentTime = 0, a_paused = True\<rparr>"

record AudioTrack =
  track_id :: string
  audio :: HTMLAudioElement
  track_volume :: rat
  isMuted :: bool
  isSolo :: bool

text \<open>
  The state of one \<^verbatim>\<open>useAudioPlayer\<close> instance: the \<^verbatim>\<open>tracksRef\<close> map (in insertion
  order, at most one track per id), the React state cells and the \<^verbatim>\<open>audioUrls\<close> option.
\<close>

record player =
  tracks :: "AudioTrack list"
  isPlaying :: bool
  currentTime :: rat
  duration :: rat
  isLoaded :: bool
  volumes :: "rat jsrecord"
  mutedStems :: "bool jsrecord"
  soloStems :: "bool jsrecord"
  audioUrls :: "string jsrecord"

text \<open>
  The effect that creates the audio elements (lines 35-78): for every stem id not yet in
  the map a new element, with its source when a URL is given, and a track with volume 80.
\<close>

definition make_track :: "string jsrecord \<Rightarrow> string \<Rightarrow> AudioTrack" where
  "make_track urls i =
     \<lparr>track_id = i,
      audio = (case map_of urls i of
                 None \<Rightarrow> new_Audio
               | Some u \<Rightarrow> (if u = [] then new_Audio else new_Audio\<lparr>a_src := u\<rparr>)),
      track_volume = 80, isMuted = False, isSolo = False\<rparr>"

fun add_tracks :: "string jsrecord \<Rightarrow> string list \<Rightarrow> AudioTrack list \<Rightarrow> AudioTrack list" where
  "add_tracks urls [] ts = ts"
| "add_tracks urls (i # ids) ts =
     (if i \<in> track_id ` set ts then add_tracks urls ids ts
      else add_tracks urls ids (ts @ [make_track urls i]))"

text \<open>Lines 93-112: the gain of every track from the three state records.\<close>

definition hasSolo :: "player \<Rightarrow> bool" where
  "hasSolo s = list_ex (\<lambda>(k, v). v) (soloStems s)"

definition effectiveVolume :: "player \<Rightarrow> string \<Rightarrow> rat" where
  "effectiveVolume s i =
     (let isSoloed = truthy (map_of (soloStems s) i);
          muted = truthy (map_of (mutedStems s) i);
          volume = (case map_of (volumes s) i of None \<Rightarrow> 80 | Some v \<Rightarrow> v);
          ev = volume / 100
      in if hasSolo s then (if isSoloed then ev else 0)
         else if muted then 0
         else ev)"

definition updateTrackVolumes :: "player \<Rightarrow> player" where
  "updateTrackVolumes s =
     s\<lparr>tracks := map (\<lambda>t. t\<lparr>audio := (audio t)\<lparr>a_volume := effectiveVolume s (track_id t)\<rparr>\<rparr>)
                      (tracks s)\<rparr>"

text \<open>
  The mounted hook: the \<^verbatim>\<open>useState\<close> initialisers, then the two effects of the first
  render in source order. Without any audio URL the duration is the 180 second demo value.
\<close>

definition mount :: "string list \<Rightarrow> string jsrecord \<Rightarrow> player" where
  "mount stemIds urls =
     updateTrackVolumes
       \<lparr>tracks = add_tracks urls stemIds [],
        isPlaying = False,
        currentTime = 0,
        duration = (if urls = [] then 180 else 0),
        isLoaded = (urls = []),
        volumes = fromEntries (map (\<lambda>i. (i, 80)) stemIds),
        mutedStems = fromEntries (map (\<lambda>i. (i, False)) stemIds),
        soloStems = fromEntries (map (\<lambda>i. (i, False)) stemIds),
        audioUrls = urls\<rparr>"

text \<open>Lines 175-185: the three state mutations.\<close>

definition setVolume :: "string \<Rightarrow> rat \<Rightarrow> player \<Rightarrow> player" where
  "setVolume stemId v s = s\<lparr>volumes := AList.update stemId v (volumes s)\<rparr>"

definition toggleMute :: "string \<Rightarrow> player \<Rightarrow> player" where
  "toggleMute stemId s =
     s\<lparr>mutedStems := AList.update stemId (\<not> truthy (map_of (mutedStems s) stemId)) (mutedStems s)\<rparr>"

definition toggleSolo :: "string \<Rightarrow> player \<Rightarrow> player" where
  "toggleSolo stemId s =
     s\<lparr>soloStems := AList.update stemId (\<not> truthy (map_of (soloStems s) stemId)) (soloStems s)\<rparr>"

text \<open>
  A mutation changes one of the records that \<^verbatim>\<open>updateTrackVolumes\<close> depends on, so the
  effect of lines 114-116 runs it again after the render: one user action is the state
  change followed by the recomputation.
\<close>

datatype mutation = SetVolume string rat | ToggleMute string | ToggleSolo string

fun apply_mutation :: "mutation \<Rightarrow> player \<Rightarrow> player" where
  "apply_mutation (SetVolume i v) s = setVolume i v s"
| "apply_mutation (ToggleMute i) s = toggleMute i s"
| "apply_mutation (ToggleSolo i) s = toggleSolo i s"

definition commit :: "mutation \<Rightarrow> player \<Rightarrow> player" where
  "commit m s = updateTrackVolumes (apply_mutation m s)"


definition pause :: "player \<Rightarrow> player" where
  "pause s =
     s\<lparr>tracks := map (\<lambda>t. t\<lparr>audio := (audio t)\<lparr>a_paused := True\<rparr>\<rparr>) (tracks s),
       isPlaying := False\<rparr>"

definition seek :: "rat \<Rightarrow> player \<Rightarrow> player" where
  "seek time s =
     s\<lparr>tracks := map (\<lambda>t. t\<lparr>audio := (audio t)\<lparr>a_currentTime := time\<rparr>\<rparr>) (tracks s),
       currentTime := time\<rparr>"

text \<open>Lines 55-62: the \<^verbatim>\<open>ended\<close> listener that every audio element carries.\<close>

definition ended :: "player \<Rightarrow> player" where
  "ended s =
     s\<lparr>isPlaying := False,
       currentTime := 0,
       tracks := map (\<lambda>t. t\<lparr>audio := (audio t)\<lparr>a_currentTime := 0\<rparr>\<rparr>) (tracks s)\<rparr>"

text \<open>
  Lines 188-202: one firing of the 100 ms interval of the simulated clock. The interval
  exists only while the hook is playing and no audio URL was given; otherwise nothing fires.
\<close>

definition sim_tick :: "player \<Rightarrow> player" where
  "sim_tick s =
     (if \<not> isPlaying s \<or> audioUrls s \<noteq> [] then s
      else if currentTime s \<ge> duration s then s\<lparr>isPlaying := False, currentTime := 0\<rparr>
      else s\<lparr>currentTime := currentTime s + 1 / 10\<rparr>)"

text \<open>
  Lines 48-53: the \<^verbatim>\<open>loadedmetadata\<close> listener. It is created inside the effect, so the
  name \<^verbatim>\<open>duration\<close> in its body is the value of the state cell in the render that ran the
  effect (the effect depends on \<^verbatim>\<open>stemIds\<close> and \<^verbatim>\<open>audioUrls\<close> only). That captured value is
  the first argument; the second is the element's media duration.
\<close>

definition loadedmetadata :: "rat \<Rightarrow> rat \<Rightarrow> player \<Rightarrow> player" where
  "loadedmetadata captured audio_duration s =
     (if audio_duration \<noteq> 0 \<and> audio_duration > captured
      then s\<lparr>duration := audio_duration\<rparr> else s)\<lparr>isLoaded := True\<rparr>"

text \<open>
  The tracks of the first render report their durations in the given order. Their
  listeners were all created by the mount effect, when the duration cell held
  \<^term>\<open>duration s\<close>.
\<close>

definition metadata_loaded :: "rat list \<Rightarrow> player \<Rightarrow> player" where
  "metadata_loaded ds s = foldl (\<lambda>st d. loadedmetadata (duration s) d st) s ds"

subsection \<open>The resolution rule as the specification words it\<close>

text \<open>
  The rule of the specification, over the flags of the tracks of the session: a track's
  flags and volume are the properties of the three records under the track's id.
\<close>

definition track_ids :: "player \<Rightarrow> string list" where
  "track_ids s = map track_id (tracks s)"

definition spec_soloed :: "player \<Rightarrow> string \<Rightarrow> bool" where
  "spec_soloed s i = truthy (map_of (soloStems s) i)"

definition spec_muted :: "player \<Rightarrow> string \<Rightarrow> bool" where
  "spec_muted s i = truthy (map_of (mutedStems s) i)"

definition spec_volume :: "player \<Rightarrow> string \<Rightarrow> rat" where
  "spec_volume s i = (case map_of (volumes s) i of None \<Rightarrow> 80 | Some v \<Rightarrow> v)"

definition spec_anySoloed :: "player \<Rightarrow> bool" where
  "spec_anySoloed s = list_ex (\<lambda>t. spec_soloed s (track_id t)) (tracks s)"

definition spec_audible :: "player \<Rightarrow> string \<Rightarrow> bool" where
  "spec_audible s i =
     ((spec_anySoloed s \<and> spec_soloed s i) \<or> (\<not> spec_anySoloed s \<and> \<not> spec_muted s i))"

definition spec_gain :: "player \<Rightarrow> string \<Rightarrow> rat" where
  "spec_gain s i = (if spec_audible s i then spec_volume s i / 100 else 0)"

text \<open>
  The states the rule is stated for: the solo record has one property per key and only
  for ids of tracks of the session (as \<^const>\<open>mount\<close> builds it), and every volume lies in
  0..100, the range of the volume slider and of the element's \<^verbatim>\<open>volume\<close> setter.
  A mutation addresses a track of the session.
\<close>

definition mixer_ok :: "player \<Rightarrow> bool" where
  "mixer_ok s \<longleftrightarrow>
     distinct (map fst (soloStems s)) \<and>
     set (map fst (soloStems s)) \<subseteq> set (track_ids s) \<and>
     list_all (\<lambda>(k, v). 0 \<le> v \<and> v \<le> 100) (volumes s)"

fun mutation_ok :: "player \<Rightarrow> mutation \<Rightarrow> bool" where
  "mutation_ok s (SetVolume i v) \<longleftrightarrow> i \<in> set (track_ids s) \<and> 0 \<le> v \<and> v \<le> 100"
| "mutation_ok s (ToggleMute i) \<longleftrightarrow> i \<in> set (track_ids s)"
| "mutation_ok s (ToggleSolo i) \<longleftrightarrow> i \<in> set (track_ids s)"

text \<open>The four-stem demo session of the configuration page, and a two-track session with media.\<close>

definition demo4 :: player where
  "demo4 = mount [''vocals'', ''drums'', ''bass'', ''other''] []"

definition media2 :: player where
  "media2 = mount [''vocals'', ''drums'']
              [(''vocals'', ''/audio/vocals.mp3''), (''drums'', ''/audio/drums.mp3'')]"

section \<open>The separation orchestrator: the two \<^verbatim>\<open>useStemSeparation\<close> hooks\<close>

text \<open>
  The repository holds the hook in two forms. \<^verbatim>\<open>src/hooks/useStemSeparation.ts\<close> invokes
  the edge function once and waits for the final answer, with a simulated progress ramp
  (the invoke hook). The older form starts a prediction and polls its status every two
  seconds (the polling hook). Both share the data below.

  Messages are strings, as in the source, where a thrown \<^verbatim>\<open>Error\<close> is identified by its
  message only (\<^verbatim>\<open>errorMessage !== 'Cancelled'\<close>). The Hungarian messages of the invoke hook
  are written without their accents.
\<close>

datatype stage = Idle | Uploading | Processing | Complete | Error

record SeparationProgress =
  stage :: stage
  percent :: nat
  message :: string

record StemResult =
  stem_id :: string
  label :: string
  url :: string

text \<open>
  A value of the remote stem map: a string, or anything else (number, boolean, null,
  nested object). The map itself is the list of its entries in \<^verbatim>\<open>Object.entries\<close> order.
\<close>

datatype jsvalue = JString string | JOther

type_synonym stem_map = "(string \<times> jsvalue) list"

text \<open>
  The \<^verbatim>\<open>data\<close> payload of an edge function answer with the properties the hooks read, each
  absent (\<^const>\<open>None\<close>) or present; and the \<^verbatim>\<open>{ data, error }\<close> pair that
  \<^verbatim>\<open>supabase.functions.invoke\<close> resolves to (\<open>r_error\<close> is the message of \<^verbatim>\<open>invokeError\<close>).
\<close>

record payload =
  p_error :: "string option"
  p_errorType :: "string option"
  p_details :: "string option"
  p_status :: "string option"
  p_output :: "stem_map option"
  p_id :: "string option"

record invoke_response =
  r_data :: "payload option"
  r_error :: "string option"

text \<open>What \<^verbatim>\<open>createSignedUrl\<close> resolves to: \<^verbatim>\<open>data\<close> (null, or an object whose
  \<^verbatim>\<open>signedUrl\<close> may be missing) and the message of \<^verbatim>\<open>error\<close>.\<close>

record signed_url_response =
  su_data :: "string option option"
  su_error :: "string option"

text \<open>Requests that leave the hook, in the order they are issued.\<close>

datatype request =
    StorageUpload string
  | CreateSignedUrl
  | SeparationRequest string string "string option"
  | StatusRequest "string option"

text \<open>
  An \<^verbatim>\<open>async\<close> function runs until its next \<^verbatim>\<open>await\<close> and continues when the awaited promise
  settles. The state of a hook instance is its React state cells and refs, together with
  the continuations that wait for a promise (\<open>pending\<close>, one per call of \<^verbatim>\<open>separate\<close> or
  \<^verbatim>\<open>separateFromUrl\<close> still running, under a fresh number). Two logs record what an
  observer sees: the requests issued (\<open>calls\<close>) and every value stored by \<^verbatim>\<open>setProgress\<close>
  (\<open>history\<close>).
\<close>

record 'task hook =
  isProcessing :: bool
  progress :: SeparationProgress
  stems :: "StemResult list"
  error :: "string option"
  cancelledRef :: bool
  pending :: "(nat \<times> 'task) list"
  nextChain :: nat
  calls :: "request list"
  history :: "SeparationProgress list"

definition setProgress ::
  "SeparationProgress \<Rightarrow> ('t, 'z) hook_scheme \<Rightarrow> ('t, 'z) hook_scheme" where
  "setProgress p s = s\<lparr>progress := p, history := history s @ [p]\<rparr>"

definition send :: "request \<Rightarrow> ('t, 'z) hook_scheme \<Rightarrow> ('t, 'z) hook_scheme" where
  "send r s = s\<lparr>calls := calls s @ [r]\<rparr>"

definition suspend :: "nat \<Rightarrow> 't \<Rightarrow> ('t, 'z) hook_scheme \<Rightarrow> ('t, 'z) hook_scheme" where
  "suspend c task s = s\<lparr>pending := pending s @ [(c, task)]\<rparr>"

definition resume :: "nat \<Rightarrow> ('t, 'z) hook_scheme \<Rightarrow> ('t, 'z) hook_scheme" where
  "resume c s = s\<lparr>pending := filter (\<lambda>(k, t). k \<noteq> c) (pending s)\<rparr>"

text \<open>The first four statements of \<^verbatim>\<open>separate\<close> and \<^verbatim>\<open>separateFromUrl\<close>, in both hooks.\<close>

definition begin_call :: "('t, 'z) hook_scheme \<Rightarrow> ('t, 'z) hook_scheme" where
  "begin_call s = s\<lparr>isProcessing := True, error := None, stems := [], cancelledRef := False\<rparr>"

text \<open>
  The \<^verbatim>\<open>catch\<close> and \<^verbatim>\<open>finally\<close> blocks of \<^verbatim>\<open>separate\<close> and \<^verbatim>\<open>separateFromUrl\<close>, the same in
  both hooks: every message but \<^verbatim>\<open>'Cancelled'\<close> is stored and shown in stage \<^verbatim>\<open>error\<close>.
\<close>

definition catch_finally :: "string \<Rightarrow> ('t, 'z) hook_scheme \<Rightarrow> ('t, 'z) hook_scheme" where
  "catch_finally errorMessage s =
     (if errorMessage \<noteq> ''Cancelled''
      then setProgress \<lparr>stage = Error, percent = 0, message = errorMessage\<rparr>
             (s\<lparr>error := Some errorMessage\<rparr>)
      else s)\<lparr>isProcessing := False\<rparr>"

text \<open>The end of the \<^verbatim>\<open>try\<close> block, then \<^verbatim>\<open>finally\<close>.\<close>

definition finish :: "string \<Rightarrow> StemResult list \<Rightarrow> ('t, 'z) hook_scheme \<Rightarrow> ('t, 'z) hook_scheme" where
  "finish msg results s =
     (setProgress \<lparr>stage = Complete, percent = 100, message = msg\<rparr>
        (s\<lparr>stems := results\<rparr>))\<lparr>isProcessing := False\<rparr>"

subsection \<open>Result normalisation\<close>

text \<open>
  \<^verbatim>\<open>STEM_LABELS[key] || key\<close> over the own properties of the table. (Keys that name a
  property inherited from \<^verbatim>\<open>Object.prototype\<close>, such as \<^verbatim>\<open>constructor\<close>, read a function
  there; stem maps with such keys are outside this model.)
\<close>

definition STEM_LABELS :: "string jsrecord" where
  "STEM_LABELS =
     [(''vocals'', ''Vocals''), (''drums'', ''Drums''), (''bass'', ''Bass''),
      (''other'', ''Other''), (''instrumental'', ''Instrumental''),
      (''guitar'', ''Guitar''), (''piano'', ''Piano'')]"

definition STEM_LABELS_polling :: "string jsrecord" where
  "STEM_LABELS_polling =
     [(''vocals'', ''Vocals''), (''drums'', ''Drums''), (''bass'', ''Bass''),
      (''other'', ''Other''), (''guitar'', ''Guitar''), (''piano'', ''Piano'')]"

definition stem_label :: "string jsrecord \<Rightarrow> string \<Rightarrow> string" where
  "stem_label table key =
     (case map_of table key of None \<Rightarrow> key | Some l \<Rightarrow> (if l = [] then key else l))"

text \<open>The \<^verbatim>\<open>for (const [key, url] of Object.entries(output))\<close> loop with its \<^verbatim>\<open>push\<close>.\<close>

fun push_stems :: "string jsrecord \<Rightarrow> stem_map \<Rightarrow> StemResult list \<Rightarrow> StemResult list" where
  "push_stems table [] results = results"
| "push_stems table ((key, JString u) # rest) results =
     (if u \<noteq> []
      then push_stems table rest
             (results @ [\<lparr>stem_id = key, label = stem_label table key, url = u\<rparr>])
      else push_stems table rest results)"
| "push_stems table ((key, JOther) # rest) results = push_stems table rest results"

subsection \<open>URL validation\<close>

text \<open>\<^verbatim>\<open>haystack.includes(needle)\<close>.\<close>

fun starts_with :: "string \<Rightarrow> string \<Rightarrow> bool" where
  "starts_with s [] = True"
| "starts_with [] (n # ns) = False"
| "starts_with (c # cs) (n # ns) = (c = n \<and> starts_with cs ns)"

fun str_includes :: "string \<Rightarrow> string \<Rightarrow> bool" where
  "str_includes [] needle = (needle = [])"
| "str_includes (c # cs) needle = (starts_with (c # cs) needle \<or> str_includes cs needle)"

text \<open>
  Lines 71-84. \<^verbatim>\<open>new URL(urlString)\<close> is the platform's parser, which throws on a string
  that is no absolute URL; whether it accepts a string is the parameter \<open>parses\<close>.
\<close>

definition isValidUrl :: "(string \<Rightarrow> bool) \<Rightarrow> string \<Rightarrow> bool" where
  "isValidUrl parses urlString =
     (if urlString = [] then False
      else if str_includes urlString ''undefined'' then False
      else parses urlString)"

text \<open>
  For concrete runs, a stand-in for the platform parser: a string is taken to parse when
  it begins with a URL scheme (a letter, then letters, digits, \<^verbatim>\<open>+\<close>, \<^verbatim>\<open>-\<close> or \<^verbatim>\<open>.\<close>)
  and a colon, as every absolute URL does. Host syntax is not examined.
\<close>

definition is_alpha :: "char \<Rightarrow> bool" where
  "is_alpha c = (let n = (of_char c :: nat) in (65 \<le> n \<and> n \<le> 90) \<or> (97 \<le> n \<and> n \<le> 122))"

definition is_scheme_char :: "char \<Rightarrow> bool" where
  "is_scheme_char c =
     (let n = (of_char c :: nat)
      in is_alpha c \<or> (48 \<le> n \<and> n \<le> 57) \<or> n = 43 \<or> n = 45 \<or> n = 46)"

definition URL_parses :: "string \<Rightarrow> bool" where
  "URL_parses u =
     (let scheme = takeWhile (\<lambda>c. c \<noteq> CHR '':'') u
      in scheme \<noteq> [] \<and> length scheme < length u \<and> is_alpha (hd scheme) \<and>
         list_all is_scheme_char scheme)"


subsection \<open>The invoke hook: \<^verbatim>\<open>src/hooks/useStemSeparation.ts\<close>\<close>

text \<open>
  The awaits of \<^verbatim>\<open>separate\<close>: the storage upload, \<^verbatim>\<open>createSignedUrl\<close>, and the edge
  function call inside \<^verbatim>\<open>processSeparation\<close>. The first two remember the model name that
  the continuation needs. \<open>intervals\<close> counts the running \<^verbatim>\<open>progressInterval\<close> timers;
  \<open>abortControllerRef\<close> tells whether the ref holds a controller.
\<close>

datatype itask = AwaitUpload string | AwaitSignedUrl string | AwaitInvoke

record invoke_hook = "itask hook" +
  abortControllerRef :: bool
  intervals :: nat

definition hook_init :: "'t hook" where
  "hook_init =
     \<lparr>isProcessing = False,
      progress = \<lparr>stage = Idle, percent = 0, message = ''Ready''\<rparr>,
      stems = [], error = None, cancelledRef = False,
      pending = [], nextChain = 0, calls = [], history = []\<rparr>"

definition invoke_init :: invoke_hook where
  "invoke_init = hook.extend hook_init \<lparr>abortControllerRef = False, intervals = 0\<rparr>"

text \<open>Lines 86-99.\<close>

definition errorTypeMap :: "string jsrecord" where
  "errorTypeMap =
     [(''MISSING_BACKEND_CONFIG'',
         ''A backend szerver nincs konfiguralva. Kerjuk, ellenorizze a telepitest.''),
      (''INVALID_BACKEND_URL'', ''A backend szerver URL-je ervenytelen.''),
      (''BACKEND_CONNECTION_FAILED'',
         ''A backend szerver nem elerheto. Kerjuk, gyozodjon meg, hogy a FastAPI szerver fut.''),
      (''AUDIO_DOWNLOAD_FAILED'', ''Az audio fajl letoltese sikertelen.''),
      (''AUDIO_DOWNLOAD_HTTP_ERROR'', ''Az audio fajl mar nem elerheto vagy nem ervenyes.''),
      (''INVALID_AUDIO_URL'',
         ''Az audio URL ervenytelen. A fajl feltoltese sikertelen lehet.''),
      (''PROCESSING_FAILED'', ''Az audio feldolgozasa sikertelen. Kerjuk, probalja ujra.''),
      (''UNEXPECTED_ERROR'', ''Varatlan hiba tortent. Kerjuk, probalja ujra kesobb.'')]"

definition getErrorMessage :: "string option \<Rightarrow> string \<Rightarrow> string" where
  "getErrorMessage errorType originalError =
     (case (case errorType of None \<Rightarrow> None | Some t \<Rightarrow> map_of errorTypeMap t) of
        Some m \<Rightarrow> m
      | None \<Rightarrow> (if originalError \<noteq> [] then originalError else ''Feldolgozasi hiba tortent.''))"

text \<open>
  Lines 198-243: what \<^verbatim>\<open>processSeparation\<close> does with the answer of the edge function: a
  thrown message (\<^const>\<open>Inl\<close>) or the stems (\<^const>\<open>Inr\<close>). The first argument is the
  value of \<^verbatim>\<open>cancelledRef.current\<close> when the call returns.
\<close>

definition separation_result :: "bool \<Rightarrow> invoke_response \<Rightarrow> string + StemResult list" where
  "separation_result cancelled r =
     (if cancelled then Inl ''Cancelled''
      else case r_error r of
        Some m \<Rightarrow> Inl (''Szetvalasztas sikertelen: '' @ m)
      | None \<Rightarrow>
         (case r_data r of
            None \<Rightarrow> Inl ''Ismeretlen hiba tortent a feldolgozas soran''
          | Some d \<Rightarrow>
             (case (case p_error d of None \<Rightarrow> None | Some e \<Rightarrow> (if e = [] then None else Some e)) of
                Some e \<Rightarrow>
                  Inl (getErrorMessage (p_errorType d) e @
                       (case p_details d of
                          None \<Rightarrow> []
                        | Some ds \<Rightarrow> (if ds = [] then [] else '' ('' @ ds @ '')'')))
              | None \<Rightarrow>
                 (if p_status d \<noteq> Some ''succeeded''
                  then Inl ''Ismeretlen hiba tortent a feldolgozas soran''
                  else case p_output d of
                    None \<Rightarrow> Inl ''Nem sikerult stem-eket kinyerni''
                  | Some output \<Rightarrow>
                     (let results = push_stems STEM_LABELS output []
                      in if length results = 0
                         then Inl ''Nem sikerult stem-eket kinyerni a feldolgozas eredmenyebol''
                         else Inr results)))))"

text \<open>Lines 163-194: \<^verbatim>\<open>processSeparation\<close> up to its \<^verbatim>\<open>await\<close>.\<close>

definition processSeparation_begin :: "nat \<Rightarrow> string \<Rightarrow> string \<Rightarrow> invoke_hook \<Rightarrow> invoke_hook" where
  "processSeparation_begin c audioUrl modelName s =
     suspend c AwaitInvoke
       (send (SeparationRequest audioUrl modelName None)
          ((setProgress \<lparr>stage = Processing, percent = 30,
                         message = ''Stem szetvalasztas inditasa...''\<rparr> s)
             \<lparr>abortControllerRef := True, intervals := intervals s + 1\<rparr>))"

text \<open>Lines 290-300 and 115-130: \<^verbatim>\<open>separate\<close> up to the upload.\<close>

definition separate :: "string \<Rightarrow> string \<Rightarrow> invoke_hook \<Rightarrow> invoke_hook" where
  "separate audioFile modelName s =
     (let c = nextChain s;
          s1 = (begin_call s)\<lparr>nextChain := c + 1\<rparr>;
          s2 = setProgress \<lparr>stage = Uploading, percent = 10,
                            message = ''Feltoltes folyamatban...''\<rparr> s1
      in suspend c (AwaitUpload modelName) (send (StorageUpload audioFile) s2))"

text \<open>Lines 251-261: \<^verbatim>\<open>separateFromUrl\<close> up to the edge function call.\<close>

definition separateFromUrl :: "string \<Rightarrow> string \<Rightarrow> invoke_hook \<Rightarrow> invoke_hook" where
  "separateFromUrl audioUrl modelName s =
     (let c = nextChain s
      in processSeparation_begin c audioUrl modelName ((begin_call s)\<lparr>nextChain := c + 1\<rparr>))"

text \<open>Lines 132-140: after the upload.\<close>

definition upload_settled :: "nat \<Rightarrow> string \<Rightarrow> string option \<Rightarrow> invoke_hook \<Rightarrow> invoke_hook" where
  "upload_settled c modelName uploadError s =
     (case uploadError of
        Some m \<Rightarrow> catch_finally (''Feltoltes sikertelen: '' @ m) s
      | None \<Rightarrow> suspend c (AwaitSignedUrl modelName) (send CreateSignedUrl s))"

text \<open>Lines 142-156 and 303: after \<^verbatim>\<open>createSignedUrl\<close>. A missing \<^verbatim>\<open>signedUrl\<close> prints as
  \<^verbatim>\<open>undefined\<close> in the message.\<close>

definition signed_url_settled ::
  "(string \<Rightarrow> bool) \<Rightarrow> nat \<Rightarrow> string \<Rightarrow> signed_url_response \<Rightarrow> invoke_hook \<Rightarrow> invoke_hook" where
  "signed_url_settled parses c modelName r s =
     (case (su_error r, su_data r) of
        (Some m, _) \<Rightarrow>
          catch_finally (''Signed URL letrehozasa sikertelen: '' @
                         (if m = [] then ''Unknown error'' else m)) s
      | (None, None) \<Rightarrow>
          catch_finally (''Signed URL letrehozasa sikertelen: '' @ ''Unknown error'') s
      | (None, Some None) \<Rightarrow>
          catch_finally (''Tarolasi URL ervenytelen: '' @ ''undefined'' @
                         ''. A Supabase kliens konfiguracioja lehet hibas.'') s
      | (None, Some (Some signedUrl)) \<Rightarrow>
          (if signedUrl = [] \<or> \<not> isValidUrl parses signedUrl
           then catch_finally (''Tarolasi URL ervenytelen: '' @ signedUrl @
                               ''. A Supabase kliens konfiguracioja lehet hibas.'') s
           else processSeparation_begin c signedUrl modelName s))"

text \<open>Lines 196-248 and 263-287 (305-329): after the edge function call.\<close>

definition invoke_settled :: "invoke_response \<Rightarrow> invoke_hook \<Rightarrow> invoke_hook" where
  "invoke_settled r s =
     (let s1 = s\<lparr>intervals := intervals s - 1\<rparr>;
          res = separation_result (cancelledRef s1) r;
          s2 = s1\<lparr>abortControllerRef := False\<rparr>
      in case res of
           Inl errorMessage \<Rightarrow> catch_finally errorMessage s2
         | Inr results \<Rightarrow> finish ''Szetvalasztas kesz!'' results s2)"

text \<open>Lines 171-182: one firing of a running \<^verbatim>\<open>progressInterval\<close>.\<close>

definition interval_fired :: "invoke_hook \<Rightarrow> invoke_hook" where
  "interval_fired s =
     (if intervals s = 0 then s
      else if percent (progress s) < 90
      then setProgress ((progress s)
             \<lparr>percent := min (percent (progress s) + 5) 90,
              message := ''Szetvalasztas folyamatban (ez eltarthat 1-5 percig)...''\<rparr>) s
      else s)"

text \<open>Lines 332-343. \<^verbatim>\<open>abort()\<close> on the controller has no listener.\<close>

definition cancel :: "invoke_hook \<Rightarrow> invoke_hook" where
  "cancel s =
     setProgress \<lparr>stage = Idle, percent = 0, message = ''Megszakitva''\<rparr>
       (s\<lparr>cancelledRef := True, isProcessing := False\<rparr>)"

text \<open>
  What can happen to a hook instance: a call of its three functions, the settling of an
  awaited promise of chain \<open>c\<close>, a timer firing. A settling that no continuation waits for
  does not occur and leaves the state as it is.
\<close>

datatype ievent =
    CallSeparate string string
  | CallSeparateFromUrl string string
  | CallCancel
  | UploadSettled nat "string option"
  | SignedUrlSettled nat signed_url_response
  | InvokeSettled nat invoke_response
  | IntervalFired

fun istep :: "(string \<Rightarrow> bool) \<Rightarrow> ievent \<Rightarrow> invoke_hook \<Rightarrow> invoke_hook" where
  "istep parses (CallSeparate f m) s = separate f m s"
| "istep parses (CallSeparateFromUrl u m) s = separateFromUrl u m s"
| "istep parses CallCancel s = cancel s"
| "istep parses (UploadSettled c r) s =
     (case map_of (pending s) c of
        Some (AwaitUpload m) \<Rightarrow> upload_settled c m r (resume c s)
      | _ \<Rightarrow> s)"
| "istep parses (SignedUrlSettled c r) s =
     (case map_of (pending s) c of
        Some (AwaitSignedUrl m) \<Rightarrow> signed_url_settled parses c m r (resume c s)
      | _ \<Rightarrow> s)"
| "istep parses (InvokeSettled c r) s =
     (case map_of (pending s) c of
        Some AwaitInvoke \<Rightarrow> invoke_settled r (resume c s)
      | _ \<Rightarrow> s)"
| "istep parses IntervalFired s = interval_fired s"

definition irun :: "(string \<Rightarrow> bool) \<Rightarrow> ievent list \<Rightarrow> invoke_hook \<Rightarrow> invoke_hook" where
  "irun parses es s = foldl (\<lambda>st e. istep parses e st) s es"

subsection \<open>The polling hook\<close>

text \<open>
  The awaits of the older hook: the upload, the call that starts the prediction, a status
  call, and the two second timer between status calls. The continuations of
  \<^verbatim>\<open>separateFromUrl\<close> carry its \<^verbatim>\<open>selectedStems\<close> argument (\<^const>\<open>None\<close> when it is not
  given, and in \<^verbatim>\<open>separate\<close>), those past the start the prediction id. A timer is known by
  the handle that \<^verbatim>\<open>setTimeout\<close> returned; \<open>pollTimeoutRef\<close> holds the last one.
\<close>

datatype ptask =
    PollUpload
  | PollStart "string list option"
  | PollStatus "string list option" "string option"
  | PollTimer "string list option" "string option" nat

record polling_hook = "ptask hook" +
  pollTimeoutRef :: "nat option"
  nextTimer :: nat

definition polling_init :: polling_hook where
  "polling_init = hook.extend hook_init \<lparr>pollTimeoutRef = None, nextTimer = 1\<rparr>"

text \<open>The message of the \<^verbatim>\<open>TypeError\<close> that reading a property of \<^verbatim>\<open>null\<close> or
  \<^verbatim>\<open>Object.entries(undefined)\<close> throws; its wording depends on the engine.\<close>

definition TypeError :: string where
  "TypeError = ''TypeError''"

definition startSeparation_begin ::
  "nat \<Rightarrow> string list option \<Rightarrow> string \<Rightarrow> string option \<Rightarrow> polling_hook \<Rightarrow> polling_hook" where
  "startSeparation_begin c sel audioUrl stem s =
     suspend c (PollStart sel)
       (send (SeparationRequest audioUrl ''htdemucs'' stem)
          (setProgress \<lparr>stage = Processing, percent = 20,
                        message = ''Starting stem separation...''\<rparr> s))"

definition startSeparation_result :: "invoke_response \<Rightarrow> string + string option" where
  "startSeparation_result r =
     (case r_error r of
        Some m \<Rightarrow> Inl (''Failed to start separation: '' @ m)
      | None \<Rightarrow>
         (case r_data r of
            None \<Rightarrow> Inl TypeError
          | Some d \<Rightarrow>
             (case p_error d of
                None \<Rightarrow> Inr (p_id d)
              | Some e \<Rightarrow> (if e = [] then Inr (p_id d) else Inl e))))"

text \<open>\<^verbatim>\<open>poll\<close> up to its status call.\<close>

definition poll :: "nat \<Rightarrow> string list option \<Rightarrow> string option \<Rightarrow> polling_hook \<Rightarrow> polling_hook" where
  "poll c sel predictionId s =
     (if cancelledRef s then catch_finally ''Cancelled'' s
      else suspend c (PollStatus sel predictionId) (send (StatusRequest predictionId) s))"

definition start_settled ::
  "nat \<Rightarrow> string list option \<Rightarrow> invoke_response \<Rightarrow> polling_hook \<Rightarrow> polling_hook" where
  "start_settled c sel r s =
     (case startSeparation_result r of
        Inl errorMessage \<Rightarrow> catch_finally errorMessage s
      | Inr predictionId \<Rightarrow> poll c sel predictionId s)"

text \<open>The filter of \<^verbatim>\<open>separateFromUrl\<close>: \<^verbatim>\<open>selectedStems?.length ? results.filter(...) : results\<close>.\<close>

definition filter_selected :: "string list option \<Rightarrow> StemResult list \<Rightarrow> StemResult list" where
  "filter_selected sel results =
     (case sel of
        None \<Rightarrow> results
      | Some selectedStems \<Rightarrow>
          (if length selectedStems = 0 then results
           else filter (\<lambda>r. stem_id r \<in> set selectedStems) results))"

text \<open>\<^verbatim>\<open>poll\<close> after its status call, and what the caller does with a returned result.\<close>

definition status_settled ::
  "nat \<Rightarrow> string list option \<Rightarrow> string option \<Rightarrow> invoke_response \<Rightarrow> polling_hook \<Rightarrow> polling_hook" where
  "status_settled c sel predictionId r s =
     (case r_error r of
        Some m \<Rightarrow> catch_finally (''Failed to check status: '' @ m) s
      | None \<Rightarrow>
         (case r_data r of
            None \<Rightarrow> catch_finally TypeError s
          | Some d \<Rightarrow>
             (let status = p_status d
              in if status = Some ''succeeded''
                 then (case p_output d of
                         None \<Rightarrow> catch_finally TypeError s
                       | Some output \<Rightarrow>
                           finish ''Separation complete!''
                             (filter_selected sel (push_stems STEM_LABELS_polling output [])) s)
                 else if status = Some ''failed'' \<or> status = Some ''canceled''
                 then catch_finally
                        (case p_error d of
                           None \<Rightarrow> ''Separation failed''
                         | Some e \<Rightarrow> (if e = [] then ''Separation failed'' else e)) s
                 else
                   (let progressValue = (if status = Some ''starting'' then 25
                                         else if status = Some ''processing'' then 50
                                         else 30);
                        msg = (if status = Some ''starting'' then ''Starting AI model...''
                               else if status = Some ''processing''
                               then ''Separating stems (this may take a few minutes)...''
                               else ''Processing...'');
                        s1 = setProgress \<lparr>stage = Processing, percent = progressValue,
                                          message = msg\<rparr> s;
                        t = nextTimer s1
                    in suspend c (PollTimer sel predictionId t)
                         (s1\<lparr>pollTimeoutRef := Some t, nextTimer := t + 1\<rparr>)))))"

definition separateFromUrl_polling ::
  "string \<Rightarrow> string list option \<Rightarrow> polling_hook \<Rightarrow> polling_hook" where
  "separateFromUrl_polling audioUrl selectedStems s =
     (let c = nextChain s;
          stem = (case selectedStems of
                    Some [only] \<Rightarrow> Some only
                  | _ \<Rightarrow> None)
      in startSeparation_begin c selectedStems audioUrl stem
           ((begin_call s)\<lparr>nextChain := c + 1\<rparr>))"

definition separate_polling :: "string \<Rightarrow> polling_hook \<Rightarrow> polling_hook" where
  "separate_polling audioFile s =
     (let c = nextChain s;
          s1 = (begin_call s)\<lparr>nextChain := c + 1\<rparr>;
          s2 = setProgress \<lparr>stage = Uploading, percent = 10,
                            message = ''Uploading audio file...''\<rparr> s1
      in suspend c PollUpload (send (StorageUpload audioFile) s2))"

definition upload_settled_polling ::
  "nat \<Rightarrow> string option \<Rightarrow> string \<Rightarrow> polling_hook \<Rightarrow> polling_hook" where
  "upload_settled_polling c uploadError publicUrl s =
     (case uploadError of
        Some m \<Rightarrow> catch_finally (''Upload failed: '' @ m) s
      | None \<Rightarrow> startSeparation_begin c None publicUrl None s)"

text \<open>\<^verbatim>\<open>cancel\<close>: \<^verbatim>\<open>clearTimeout\<close> removes the timer with the stored handle if it has not
  fired; the promise that waits for it then never settles.\<close>

definition cancel_polling :: "polling_hook \<Rightarrow> polling_hook" where
  "cancel_polling s =
     (let s1 = s\<lparr>cancelledRef := True\<rparr>;
          s2 = (case pollTimeoutRef s1 of
                  None \<Rightarrow> s1
                | Some h \<Rightarrow>
                    s1\<lparr>pending := filter (\<lambda>(k, task). case task of
                                                       PollTimer sel pid t \<Rightarrow> t \<noteq> h
                                                     | _ \<Rightarrow> True) (pending s1)\<rparr>)
      in setProgress \<lparr>stage = Idle, percent = 0, message = ''Cancelled''\<rparr>
           (s2\<lparr>isProcessing := False\<rparr>))"

datatype pevent =
    PCallSeparate string
  | PCallSeparateFromUrl string "string list option"
  | PCallCancel
  | PUploadSettled nat "string option" string
  | PStartSettled nat invoke_response
  | PStatusSettled nat invoke_response
  | PTimerFired nat

fun pstep :: "pevent \<Rightarrow> polling_hook \<Rightarrow> polling_hook" where
  "pstep (PCallSeparate f) s = separate_polling f s"
| "pstep (PCallSeparateFromUrl u sel) s = separateFromUrl_polling u sel s"
| "pstep PCallCancel s = cancel_polling s"
| "pstep (PUploadSettled c r publicUrl) s =
     (case map_of (pending s) c of
        Some PollUpload \<Rightarrow> upload_settled_polling c r publicUrl (resume c s)
      | _ \<Rightarrow> s)"
| "pstep (PStartSettled c r) s =
     (case map_of (pending s) c of
        Some (PollStart sel) \<Rightarrow> start_settled c sel r (resume c s)
      | _ \<Rightarrow> s)"
| "pstep (PStatusSettled c r) s =
     (case map_of (pending s) c of
        Some (PollStatus sel pid) \<Rightarrow> status_settled c sel pid r (resume c s)
      | _ \<Rightarrow> s)"
| "pstep (PTimerFired c) s =
     (case map_of (pending s) c of
        Some (PollTimer sel pid t) \<Rightarrow> poll c sel pid (resume c s)
      | _ \<Rightarrow> s)"

definition prun :: "pevent list \<Rightarrow> polling_hook \<Rightarrow> polling_hook" where
  "prun es s = foldl (\<lambda>st e. pstep e st) s es"

subsection \<open>Answers of the edge function, for concrete runs\<close>

definition no_payload :: payload where
  "no_payload = \<lparr>p_error = None, p_errorType = None, p_details = None,
                 p_status = None, p_output = None, p_id = None\<rparr>"

definition answer :: "payload \<Rightarrow> invoke_response" where
  "answer d = \<lparr>r_data = Some d, r_error = None\<rparr>"

definition succeeded :: "stem_map \<Rightarrow> invoke_response" where
  "succeeded output = answer (no_payload\<lparr>p_status := Some ''succeeded'', p_output := Some output\<rparr>)"

definition started :: "string \<Rightarrow> invoke_response" where
  "started i = answer (no_payload\<lparr>p_id := Some i, p_status := Some ''starting''\<rparr>)"

definition in_status :: "string \<Rightarrow> invoke_response" where
  "in_status st = answer (no_payload\<lparr>p_status := Some st\<rparr>)"

definition failed :: "string \<Rightarrow> invoke_response" where
  "failed e = answer (no_payload\<lparr>p_status := Some ''failed'', p_error := Some e\<rparr>)"

definition signed :: "string \<Rightarrow> signed_url_response" where
  "signed u = \<lparr>su_data = Some (Some u), su_error = None\<rparr>"

subsection \<open>Notions used to state the properties of the orchestrator\<close>



text \<open>A progress value within 0..100 that is 100 only in stage \<^verbatim>\<open>complete\<close>.\<close>

definition progress_ok :: "SeparationProgress \<Rightarrow> bool" where
  "progress_ok p \<longleftrightarrow> percent p \<le> 100 \<and> (percent p = 100 \<longrightarrow> stage p = Complete)"

text \<open>The events of chain 0 polling the given statuses, none of them final: each status
  call answers, then the timer before the next call fires.\<close>

definition poll_rounds :: "string list \<Rightarrow> pevent list" where
  "poll_rounds statuses =
     concat (map (\<lambda>st. [PStatusSettled 0 (in_status st), PTimerFired 0]) statuses)"

text \<open>The entries of a stem map that the loop keeps, and the record it makes of one.\<close>

fun usable :: "string \<times> jsvalue \<Rightarrow> bool" where
  "usable (key, JString u) = (u \<noteq> [])"
| "usable (key, JOther) = False"

fun to_stem :: "string jsrecord \<Rightarrow> string \<times> jsvalue \<Rightarrow> StemResult" where
  "to_stem table (key, JString u) = \<lparr>stem_id = key, label = stem_label table key, url = u\<rparr>"
| "to_stem table (key, JOther) = \<lparr>stem_id = key, label = stem_label table key, url = []\<rparr>"

section \<open>Theorems\<close>

subsection \<open>Mix engine: facts about the state records\<close>

lemma track_ids_updateTrackVolumes [simp]: "track_ids (updateTrackVolumes s) = track_ids s"
  by (simp add: track_ids_def updateTrackVolumes_def comp_def)

lemma records_updateTrackVolumes [simp]:
  "soloStems (updateTrackVolumes s) = soloStems s"
  "mutedStems (updateTrackVolumes s) = mutedStems s"
  "volumes (updateTrackVolumes s) = volumes s"
  "currentTime (updateTrackVolumes s) = currentTime s"
  "isPlaying (updateTrackVolumes s) = isPlaying s"
  "duration (updateTrackVolumes s) = duration s"
  by (simp_all add: updateTrackVolumes_def)

lemma track_ids_mutators [simp]:
  "track_ids (setVolume i v s) = track_ids s"
  "track_ids (toggleMute i s) = track_ids s"
  "track_ids (toggleSolo i s) = track_ids s"
  by (simp_all add: track_ids_def setVolume_def toggleMute_def toggleSolo_def)

lemma track_ids_apply_mutation [simp]: "track_ids (apply_mutation m s) = track_ids s"
  by (cases m) simp_all

lemma hasSolo_iff_anySoloed:
  assumes "distinct (map fst (soloStems s))"
    and "set (map fst (soloStems s)) \<subseteq> set (track_ids s)"
  shows "hasSolo s \<longleftrightarrow> spec_anySoloed s"
proof
  assume "hasSolo s"
  then obtain k where k: "(k, True) \<in> set (soloStems s)"
    by (auto simp: hasSolo_def list_ex_iff)
  with assms(1) have "map_of (soloStems s) k = Some True" by simp
  moreover from k assms(2) have "k \<in> set (track_ids s)" by force
  ultimately obtain t where "t \<in> set (tracks s)" "map_of (soloStems s) (track_id t) = Some True"
    by (auto simp: track_ids_def)
  then show "spec_anySoloed s"
    unfolding spec_anySoloed_def spec_soloed_def list_ex_iff
    by (intro bexI [of _ t]) (simp_all add: truthy_def)
next
  assume "spec_anySoloed s"
  then obtain t where "t \<in> set (tracks s)" "truthy (map_of (soloStems s) (track_id t))"
    by (auto simp: spec_anySoloed_def spec_soloed_def list_ex_iff)
  then have "(track_id t, True) \<in> set (soloStems s)"
    by (auto simp: truthy_def split: option.splits dest: map_of_SomeD)
  then show "hasSolo s" by (auto simp: hasSolo_def list_ex_iff)
qed

lemma effectiveVolume_spec_gain:
  assumes "distinct (map fst (soloStems s))"
    and "set (map fst (soloStems s)) \<subseteq> set (track_ids s)"
  shows "effectiveVolume s i = spec_gain s i"
  using hasSolo_iff_anySoloed [OF assms]
  by (simp add: effectiveVolume_def spec_gain_def spec_audible_def spec_soloed_def
      spec_muted_def spec_volume_def Let_def)

lemma volumes_range_update:
  assumes "list_all (\<lambda>(k, v). 0 \<le> v \<and> v \<le> (100::rat)) al" "0 \<le> w" "w \<le> 100"
  shows "list_all (\<lambda>(k, v). 0 \<le> v \<and> v \<le> 100) (AList.update i w al)"
  using assms by (induction al) auto

lemma mixer_ok_apply_mutation:
  assumes "mixer_ok s" "mutation_ok s m"
  shows "mixer_ok (apply_mutation m s)"
proof (cases m)
  case (SetVolume i v)
  with assms show ?thesis
    by (simp add: mixer_ok_def setVolume_def volumes_range_update track_ids_def)
next
  case (ToggleMute i)
  with assms show ?thesis
    by (simp add: mixer_ok_def toggleMute_def track_ids_def)
next
  case (ToggleSolo i)
  with assms show ?thesis
    by (auto simp: mixer_ok_def toggleSolo_def track_ids_def distinct_update update_keys)
qed

lemma mixer_ok_updateTrackVolumes [simp]: "mixer_ok (updateTrackVolumes s) = mixer_ok s"
  by (simp add: mixer_ok_def)

lemma mixer_ok_commit: "mixer_ok s \<Longrightarrow> mutation_ok s m \<Longrightarrow> mixer_ok (commit m s)"
  by (simp add: commit_def mixer_ok_apply_mutation)

lemma gain_updateTrackVolumes:
  assumes "t \<in> set (tracks (updateTrackVolumes s))"
  shows "a_volume (audio t) = effectiveVolume s (track_id t)"
  using assms by (auto simp: updateTrackVolumes_def)

lemma spec_anySoloed_updateTrackVolumes [simp]:
  "spec_anySoloed (updateTrackVolumes s) = spec_anySoloed s"
  by (auto simp: spec_anySoloed_def spec_soloed_def updateTrackVolumes_def list_ex_iff)

lemma spec_gain_updateTrackVolumes [simp]: "spec_gain (updateTrackVolumes s) i = spec_gain s i"
  by (simp add: spec_gain_def spec_audible_def spec_soloed_def spec_muted_def spec_volume_def)

lemma gain_after_commit:
  assumes "mixer_ok s" and "mutation_ok s m" and "t \<in> set (tracks (commit m s))"
  shows "a_volume (audio t) = spec_gain (commit m s) (track_id t)"
proof -
  have ok: "mixer_ok (apply_mutation m s)"
    using assms(1,2) by (rule mixer_ok_apply_mutation)
  from assms(3) have "a_volume (audio t) = effectiveVolume (apply_mutation m s) (track_id t)"
    unfolding commit_def by (rule gain_updateTrackVolumes)
  also have "\<dots> = spec_gain (apply_mutation m s) (track_id t)"
    using ok by (intro effectiveVolume_spec_gain) (simp_all add: mixer_ok_def)
  finally show ?thesis by (simp add: commit_def)
qed

text \<open>Every mounted session satisfies the conditions of the rule, with one property per
  stem id in each record.\<close>

lemma update_key_set: "fst ` set (AList.update k v al) = insert k (fst ` set al)"
  by (induction al) auto

lemma foldl_update_keys:
  "fst ` set (foldl (\<lambda>obj (k, v). AList.update k v obj) acc es)
     = fst ` set acc \<union> fst ` set es"
proof (induction es arbitrary: acc)
  case Nil
  then show ?case by simp
next
  case (Cons e es)
  obtain k v where e: "e = (k, v)" by (cases e)
  from Cons.IH [of "AList.update k v acc"] show ?case
    unfolding e by (simp add: update_key_set)
qed

lemma foldl_update_distinct:
  "distinct (map fst acc) \<Longrightarrow>
   distinct (map fst (foldl (\<lambda>obj (k, v). AList.update k v obj) acc es))"
  by (induction es arbitrary: acc) (auto simp: distinct_update)

lemma update_values: "snd ` set (AList.update k v al) \<subseteq> insert v (snd ` set al)"
  by (induction al) auto

lemma foldl_update_values:
  "snd ` set (foldl (\<lambda>obj (k, v). AList.update k v obj) acc es)
     \<subseteq> snd ` set acc \<union> snd ` set es"
proof (induction es arbitrary: acc)
  case Nil
  then show ?case by simp
next
  case (Cons e es)
  obtain k v where e: "e = (k, v)" by (cases e)
  from Cons.IH [of "AList.update k v acc"] update_values [of k v acc]
  show ?case unfolding e by auto
qed

lemma fromEntries_keys:
  "fst ` set (fromEntries es) = fst ` set es" "distinct (map fst (fromEntries es))"
  by (simp_all add: fromEntries_def foldl_update_keys foldl_update_distinct)

lemma add_tracks_ids:
  "track_id ` set (add_tracks urls ids ts) = track_id ` set ts \<union> set ids"
  by (induction urls ids ts rule: add_tracks.induct) (auto simp: make_track_def)

lemma mount_ok:
  "mixer_ok (mount stemIds urls) \<and>
   set (track_ids (mount stemIds urls)) = set stemIds \<and>
   set (map fst (mutedStems (mount stemIds urls))) = set stemIds \<and>
   set (map fst (soloStems (mount stemIds urls))) = set stemIds"
proof -
  have v: "list_all (\<lambda>(k, v). 0 \<le> v \<and> v \<le> 100) (fromEntries (map (\<lambda>i. (i, 80::rat)) stemIds))"
  proof -
    have "snd ` set (fromEntries (map (\<lambda>i. (i, 80::rat)) stemIds)) \<subseteq> {80}"
      using foldl_update_values [of "[]" "map (\<lambda>i. (i, 80::rat)) stemIds"]
      by (auto simp: fromEntries_def)
    then show ?thesis by (fastforce simp: list_all_iff)
  qed
  show ?thesis
    using v
    by (simp add: mixer_ok_def mount_def track_ids_def updateTrackVolumes_def comp_def
        fromEntries_keys add_tracks_ids image_comp)
qed

text \<open>Soloing one track of a session without a solo, and taking the solo back.\<close>

lemma track_id_in_commit:
  "t \<in> set (tracks (commit m s)) \<Longrightarrow> track_id t \<in> set (track_ids s)"
proof -
  assume "t \<in> set (tracks (commit m s))"
  then have "track_id t \<in> set (track_ids (commit m s))" by (simp add: track_ids_def)
  then show ?thesis by (simp add: commit_def)
qed

lemma not_anySoloed_D:
  "\<not> spec_anySoloed s \<Longrightarrow> j \<in> set (track_ids s) \<Longrightarrow> \<not> truthy (map_of (soloStems s) j)"
  by (auto simp: spec_anySoloed_def spec_soloed_def list_ex_iff track_ids_def)

lemma solo_one_gain:
  assumes ok: "mixer_ok s" and i: "i \<in> set (track_ids s)" and none: "\<not> spec_anySoloed s"
    and t: "t \<in> set (tracks (commit (ToggleSolo i) s))"
  shows "a_volume (audio t) = (if track_id t = i then spec_volume s i / 100 else 0)"
proof -
  let ?s1 = "toggleSolo i s"
  have sol: "soloStems ?s1 = AList.update i True (soloStems s)"
    using not_anySoloed_D [OF none i] by (simp add: toggleSolo_def)
  have any: "spec_anySoloed ?s1"
    using i unfolding spec_anySoloed_def spec_soloed_def list_ex_iff sol
    by (auto simp: toggleSolo_def track_ids_def update_conv' truthy_def)
  have tid: "track_id t \<in> set (track_ids s)" using t by (rule track_id_in_commit)
  have soloed: "spec_soloed ?s1 (track_id t) \<longleftrightarrow> track_id t = i"
    using not_anySoloed_D [OF none tid]
    by (simp add: spec_soloed_def sol update_conv' truthy_def)
  have "a_volume (audio t) = spec_gain (commit (ToggleSolo i) s) (track_id t)"
    using ok _ t by (rule gain_after_commit) (simp add: i)
  also have "\<dots> = spec_gain ?s1 (track_id t)" by (simp add: commit_def)
  also have "\<dots> = (if track_id t = i then spec_volume s i / 100 else 0)"
    using any soloed
    by (simp add: spec_gain_def spec_audible_def spec_volume_def toggleSolo_def)
  finally show ?thesis .
qed

lemma unsolo_gain:
  assumes ok: "mixer_ok s" and i: "i \<in> set (track_ids s)" and none: "\<not> spec_anySoloed s"
    and t: "t \<in> set (tracks (commit (ToggleSolo i) (commit (ToggleSolo i) s)))"
  shows "a_volume (audio t) =
         (if spec_muted s (track_id t) then 0 else spec_volume s (track_id t) / 100)"
proof -
  let ?s1 = "commit (ToggleSolo i) s"
  let ?s2 = "toggleSolo i ?s1"
  have ok1: "mixer_ok ?s1" using ok by (rule mixer_ok_commit) (simp add: i)
  have i1: "i \<in> set (track_ids ?s1)" using i by (simp add: commit_def)
  have sol1: "soloStems ?s1 = AList.update i True (soloStems s)"
    using not_anySoloed_D [OF none i] by (simp add: commit_def toggleSolo_def)
  have sol2: "soloStems ?s2 = AList.update i False (soloStems s)"
    by (simp add: toggleSolo_def sol1 update_conv' truthy_def)
  have tr: "track_ids ?s2 = track_ids s"
    by (simp add: commit_def)
  have none2: "\<not> spec_anySoloed ?s2"
  proof
    assume "spec_anySoloed ?s2"
    then obtain u where u: "u \<in> set (tracks ?s2)" "spec_soloed ?s2 (track_id u)"
      by (auto simp: spec_anySoloed_def list_ex_iff)
    from u(1) have "track_id u \<in> set (track_ids s)"
      unfolding tr [symmetric] by (simp add: track_ids_def)
    from not_anySoloed_D [OF none this] u(2) show False
      by (simp add: spec_soloed_def sol2 update_conv' truthy_def split: if_splits)
  qed
  have "a_volume (audio t) = spec_gain (commit (ToggleSolo i) ?s1) (track_id t)"
    using ok1 _ t by (rule gain_after_commit) (simp add: i1)
  also have "\<dots> = spec_gain ?s2 (track_id t)" by (simp add: commit_def)
  also have "\<dots> = (if spec_muted s (track_id t) then 0 else spec_volume s (track_id t) / 100)"
    using none2
    by (simp add: spec_gain_def spec_audible_def spec_muted_def spec_volume_def
        toggleSolo_def commit_def)
  finally show ?thesis .
qed

text \<open>
  C1. After any single mutation of a volume, a mute flag or a solo flag the gain of every
  track is the resolution rule applied to the new state: 0 when the track is not audible,
  its volume over 100 otherwise, where a track is audible iff some track is soloed and it
  is soloed, or no track is soloed and it is not muted. In particular soloing one track of
  a session without a solo silences every other track whatever its mute flag, and taking
  the solo back gives every track its mute-derived gain.
\<close>

theorem C1_mute_solo_resolution:
  assumes "mixer_ok s" and "mutation_ok s m"
  shows "track_ids (commit m s) = track_ids s \<and>
         (\<forall>t \<in> set (tracks (commit m s)).
            a_volume (audio t) = spec_gain (commit m s) (track_id t) \<and>
            spec_gain (commit m s) (track_id t) =
              (if spec_audible (commit m s) (track_id t)
               then spec_volume (commit m s) (track_id t) / 100 else 0)) \<and>
         (\<forall>i. m = ToggleSolo i \<and> \<not> spec_anySoloed s \<longrightarrow>
            (\<forall>t \<in> set (tracks (commit m s)).
               a_volume (audio t) = (if track_id t = i then spec_volume s i / 100 else 0)) \<and>
            (\<forall>t \<in> set (tracks (commit m (commit m s))).
               a_volume (audio t) =
                 (if spec_muted s (track_id t) then 0 else spec_volume s (track_id t) / 100)))"
proof (intro conjI ballI allI impI)
  show "track_ids (commit m s) = track_ids s" by (simp add: commit_def)
next
  fix t assume "t \<in> set (tracks (commit m s))"
  with assms show "a_volume (audio t) = spec_gain (commit m s) (track_id t)"
    by (rule gain_after_commit)
next
  fix t
  show "spec_gain (commit m s) (track_id t) =
          (if spec_audible (commit m s) (track_id t)
           then spec_volume (commit m s) (track_id t) / 100 else 0)"
    by (simp add: spec_gain_def)
next
  fix i t
  assume h: "m = ToggleSolo i \<and> \<not> spec_anySoloed s" and t: "t \<in> set (tracks (commit m s))"
  from h assms(2) have i: "i \<in> set (track_ids s)" by simp
  from solo_one_gain [OF assms(1) i] h t
  show "a_volume (audio t) = (if track_id t = i then spec_volume s i / 100 else 0)" by simp
next
  fix i t
  assume h: "m = ToggleSolo i \<and> \<not> spec_anySoloed s"
    and t: "t \<in> set (tracks (commit m (commit m s)))"
  from h assms(2) have i: "i \<in> set (track_ids s)" by simp
  from unsolo_gain [OF assms(1) i] h t
  show "a_volume (audio t) =
          (if spec_muted s (track_id t) then 0 else spec_volume s (track_id t) / 100)" by simp
qed

lemma demo4_eval:
  "demo4 =
    \<lparr>tracks = map (\<lambda>i. \<lparr>track_id = i,
                           audio = \<lparr>a_src = [], a_volume = 4 / 5, a_currentTime = 0, a_paused = True\<rparr>,
                           track_volume = 80, isMuted = False, isSolo = False\<rparr>)
                  [''vocals'', ''drums'', ''bass'', ''other''],
     isPlaying = False, currentTime = 0, duration = 180, isLoaded = True,
     volumes = [(''vocals'', 80), (''drums'', 80), (''bass'', 80), (''other'', 80)],
     mutedStems = [(''vocals'', False), (''drums'', False), (''bass'', False), (''other'', False)],
     soloStems = [(''vocals'', False), (''drums'', False), (''bass'', False), (''other'', False)],
     audioUrls = []\<rparr>"
  by (simp add: demo4_def mount_def fromEntries_def make_track_def new_Audio_def
      updateTrackVolumes_def effectiveVolume_def hasSolo_def truthy_def)

lemma bass_muted_eval:
  "commit (ToggleMute ''bass'') demo4 =
    \<lparr>tracks = map (\<lambda>i. \<lparr>track_id = i,
                           audio = \<lparr>a_src = [], a_volume = (if i = ''bass'' then 0 else 4 / 5),
                                    a_currentTime = 0, a_paused = True\<rparr>,
                           track_volume = 80, isMuted = False, isSolo = False\<rparr>)
                  [''vocals'', ''drums'', ''bass'', ''other''],
     isPlaying = False, currentTime = 0, duration = 180, isLoaded = True,
     volumes = [(''vocals'', 80), (''drums'', 80), (''bass'', 80), (''other'', 80)],
     mutedStems = [(''vocals'', False), (''drums'', False), (''bass'', True), (''other'', False)],
     soloStems = [(''vocals'', False), (''drums'', False), (''bass'', False), (''other'', False)],
     audioUrls = []\<rparr>"
  by (simp add: demo4_eval commit_def toggleMute_def updateTrackVolumes_def effectiveVolume_def
      hasSolo_def truthy_def)

theorem C1_mute_solo_resolution_witness:
  "mixer_ok (commit (ToggleMute ''bass'') demo4) \<and>
   mutation_ok (commit (ToggleMute ''bass'') demo4) (ToggleSolo ''drums'') \<and>
   \<not> spec_anySoloed (commit (ToggleMute ''bass'') demo4) \<and>
   list_all (\<lambda>t. a_volume (audio t) = (if track_id t = ''drums'' then 4 / 5 else 0))
     (tracks (commit (ToggleSolo ''drums'') (commit (ToggleMute ''bass'') demo4))) \<and>
   list_all (\<lambda>t. a_volume (audio t) = (if track_id t = ''bass'' then 0 else 4 / 5))
     (tracks (commit (ToggleSolo ''drums'')
        (commit (ToggleSolo ''drums'') (commit (ToggleMute ''bass'') demo4))))"
proof -
  let ?s = "commit (ToggleMute ''bass'') demo4"
  have h1: "mixer_ok ?s"
    by (simp add: bass_muted_eval mixer_ok_def track_ids_def)
  have h2: "mutation_ok ?s (ToggleSolo ''drums'')"
    by (simp add: bass_muted_eval track_ids_def)
  have h3: "\<not> spec_anySoloed ?s"
    by (simp add: bass_muted_eval spec_anySoloed_def spec_soloed_def truthy_def)
  have v: "spec_volume ?s ''drums'' / 100 = 4 / 5"
    by (simp add: bass_muted_eval spec_volume_def)
  have m: "(if spec_muted ?s j then 0 else spec_volume ?s j / 100)
           = (if j = ''bass'' then 0 else 4 / 5)" for j
    by (simp add: bass_muted_eval spec_muted_def spec_volume_def truthy_def)
  from C1_mute_solo_resolution [OF h1 h2] h3 have
    "(\<forall>t \<in> set (tracks (commit (ToggleSolo ''drums'') ?s)).
        a_volume (audio t) = (if track_id t = ''drums'' then spec_volume ?s ''drums'' / 100 else 0)) \<and>
     (\<forall>t \<in> set (tracks (commit (ToggleSolo ''drums'') (commit (ToggleSolo ''drums'') ?s))).
        a_volume (audio t) =
          (if spec_muted ?s (track_id t) then 0 else spec_volume ?s (track_id t) / 100))"
    by blast
  then show ?thesis
    unfolding v m list_all_iff using h1 h2 h3 by blast
qed

subsection \<open>Mix engine: toggles\<close>

lemma update_truthy_present:
  assumes "i \<in> set (map fst al)"
  shows "AList.update i (truthy (map_of al i)) al = al"
proof -
  from assms obtain b where "map_of al i = Some b"
    by (cases "map_of al i") (auto simp: map_of_eq_None_iff)
  then show ?thesis by (simp add: truthy_def update_triv)
qed

lemma truthy_update_truthy:
  "truthy (map_of (AList.update i (truthy (map_of al i)) al) j) = truthy (map_of al j)"
  by (simp add: update_conv' truthy_def)

lemma list_ex_update_truthy:
  "list_ex (\<lambda>(k, v). v) (AList.update i (truthy (map_of al i)) al) = list_ex (\<lambda>(k, v). v) al"
  by (induction al) (auto simp: truthy_def)

lemma toggleMute_twice: "toggleMute i (toggleMute i s) =
    s\<lparr>mutedStems := AList.update i (truthy (map_of (mutedStems s) i)) (mutedStems s)\<rparr>"
  by (simp add: toggleMute_def update_conv' truthy_def)

lemma toggleSolo_twice: "toggleSolo i (toggleSolo i s) =
    s\<lparr>soloStems := AList.update i (truthy (map_of (soloStems s) i)) (soloStems s)\<rparr>"
  by (simp add: toggleSolo_def update_conv' truthy_def)

lemma tracks_updateTrackVolumes:
  "tracks (updateTrackVolumes s) =
     map (\<lambda>t. t\<lparr>audio := (audio t)\<lparr>a_volume := effectiveVolume s (track_id t)\<rparr>\<rparr>) (tracks s)"
  by (simp add: updateTrackVolumes_def)

lemma tracks_toggle [simp]:
  "tracks (toggleMute i s) = tracks s" "tracks (toggleSolo i s) = tracks s"
  by (simp_all add: toggleMute_def toggleSolo_def)

lemma effectiveVolume_toggleMute_twice:
  "effectiveVolume (toggleMute i (updateTrackVolumes (toggleMute i s))) = effectiveVolume s"
proof -
  have "mutedStems (toggleMute i (updateTrackVolumes (toggleMute i s)))
        = AList.update i (truthy (map_of (mutedStems s) i)) (mutedStems s)"
    by (simp add: toggleMute_def updateTrackVolumes_def update_conv' truthy_def)
  moreover have "soloStems (toggleMute i (updateTrackVolumes (toggleMute i s))) = soloStems s"
    and "volumes (toggleMute i (updateTrackVolumes (toggleMute i s))) = volumes s"
    by (simp_all add: toggleMute_def updateTrackVolumes_def)
  ultimately show ?thesis
    by (intro ext) (simp add: effectiveVolume_def hasSolo_def truthy_update_truthy)
qed

lemma effectiveVolume_toggleSolo_twice:
  "effectiveVolume (toggleSolo i (updateTrackVolumes (toggleSolo i s))) = effectiveVolume s"
proof -
  have "soloStems (toggleSolo i (updateTrackVolumes (toggleSolo i s)))
        = AList.update i (truthy (map_of (soloStems s) i)) (soloStems s)"
    by (simp add: toggleSolo_def updateTrackVolumes_def update_conv' truthy_def)
  moreover have "mutedStems (toggleSolo i (updateTrackVolumes (toggleSolo i s))) = mutedStems s"
    and "volumes (toggleSolo i (updateTrackVolumes (toggleSolo i s))) = volumes s"
    by (simp_all add: toggleSolo_def updateTrackVolumes_def)
  ultimately show ?thesis
    by (intro ext)
       (simp add: effectiveVolume_def hasSolo_def list_ex_update_truthy truthy_update_truthy)
qed

lemma commit_toggleMute_twice:
  "tracks (commit (ToggleMute i) (commit (ToggleMute i) s)) = tracks (updateTrackVolumes s)"
  by (simp add: commit_def tracks_updateTrackVolumes effectiveVolume_toggleMute_twice comp_def)

lemma commit_toggleSolo_twice:
  "tracks (commit (ToggleSolo i) (commit (ToggleSolo i) s)) = tracks (updateTrackVolumes s)"
  by (simp add: commit_def tracks_updateTrackVolumes effectiveVolume_toggleSolo_twice comp_def)

text \<open>
  C10. Toggling the mute flag of a track twice, or its solo flag twice, brings the mixer
  back: every flag reads as before and every gain is the one before the first toggle; the
  whole state is the same when the id has a property in the record, as every stem id of
  the session has. A single toggle changes the flag of that id only and leaves volumes,
  position and playing status alone; the recomputation that follows it changes gains only.
\<close>

theorem C10_toggles_are_involutions:
  "(i \<in> set (map fst (mutedStems s)) \<longrightarrow> toggleMute i (toggleMute i s) = s) \<and>
   (i \<in> set (map fst (soloStems s)) \<longrightarrow> toggleSolo i (toggleSolo i s) = s) \<and>
   (\<forall>j. spec_muted (toggleMute i (toggleMute i s)) j = spec_muted s j) \<and>
   (\<forall>j. spec_soloed (toggleSolo i (toggleSolo i s)) j = spec_soloed s j) \<and>
   tracks (commit (ToggleMute i) (commit (ToggleMute i) s)) = tracks (updateTrackVolumes s) \<and>
   tracks (commit (ToggleSolo i) (commit (ToggleSolo i) s)) = tracks (updateTrackVolumes s) \<and>
   spec_muted (toggleMute i s) i = (\<not> spec_muted s i) \<and>
   spec_soloed (toggleSolo i s) i = (\<not> spec_soloed s i) \<and>
   (\<forall>j. j \<noteq> i \<longrightarrow> map_of (mutedStems (toggleMute i s)) j = map_of (mutedStems s) j) \<and>
   (\<forall>j. j \<noteq> i \<longrightarrow> map_of (soloStems (toggleSolo i s)) j = map_of (soloStems s) j) \<and>
   soloStems (toggleMute i s) = soloStems s \<and>
   mutedStems (toggleSolo i s) = mutedStems s \<and>
   (\<forall>m. m = ToggleMute i \<or> m = ToggleSolo i \<longrightarrow>
      volumes (commit m s) = volumes s \<and>
      currentTime (commit m s) = currentTime s \<and>
      isPlaying (commit m s) = isPlaying s \<and>
      duration (commit m s) = duration s \<and>
      map (\<lambda>t. (track_id t, a_currentTime (audio t), a_paused (audio t))) (tracks (commit m s))
        = map (\<lambda>t. (track_id t, a_currentTime (audio t), a_paused (audio t))) (tracks s))"
proof -
  have a: "i \<in> set (map fst (mutedStems s)) \<longrightarrow> toggleMute i (toggleMute i s) = s"
    by (simp add: toggleMute_twice update_truthy_present)
  have b: "i \<in> set (map fst (soloStems s)) \<longrightarrow> toggleSolo i (toggleSolo i s) = s"
    by (simp add: toggleSolo_twice update_truthy_present)
  have c: "\<forall>j. spec_muted (toggleMute i (toggleMute i s)) j = spec_muted s j"
    by (simp add: toggleMute_twice spec_muted_def truthy_update_truthy)
  have d: "\<forall>j. spec_soloed (toggleSolo i (toggleSolo i s)) j = spec_soloed s j"
    by (simp add: toggleSolo_twice spec_soloed_def truthy_update_truthy)
  have e: "spec_muted (toggleMute i s) i = (\<not> spec_muted s i)"
    "spec_soloed (toggleSolo i s) i = (\<not> spec_soloed s i)"
    by (simp_all add: spec_muted_def spec_soloed_def toggleMute_def toggleSolo_def
        update_conv' truthy_def)
  have f: "\<forall>j. j \<noteq> i \<longrightarrow> map_of (mutedStems (toggleMute i s)) j = map_of (mutedStems s) j"
    "\<forall>j. j \<noteq> i \<longrightarrow> map_of (soloStems (toggleSolo i s)) j = map_of (soloStems s) j"
    by (simp_all add: toggleMute_def toggleSolo_def update_conv')
  have g: "soloStems (toggleMute i s) = soloStems s" "mutedStems (toggleSolo i s) = mutedStems s"
    by (simp_all add: toggleMute_def toggleSolo_def)
  have h: "\<forall>m. m = ToggleMute i \<or> m = ToggleSolo i \<longrightarrow>
      volumes (commit m s) = volumes s \<and>
      currentTime (commit m s) = currentTime s \<and>
      isPlaying (commit m s) = isPlaying s \<and>
      duration (commit m s) = duration s \<and>
      map (\<lambda>t. (track_id t, a_currentTime (audio t), a_paused (audio t))) (tracks (commit m s))
        = map (\<lambda>t. (track_id t, a_currentTime (audio t), a_paused (audio t))) (tracks s)"
    by (auto simp: commit_def tracks_updateTrackVolumes comp_def toggleMute_def toggleSolo_def)
  show ?thesis
    by (intro conjI a b c d e f g h commit_toggleMute_twice commit_toggleSolo_twice)
qed

theorem C10_toggles_are_involutions_witness:
  "''bass'' \<in> set (map fst (mutedStems demo4)) \<and>
   ''bass'' \<in> set (map fst (soloStems demo4)) \<and>
   toggleMute ''bass'' (toggleMute ''bass'' demo4) = demo4 \<and>
   toggleSolo ''bass'' (toggleSolo ''bass'' demo4) = demo4 \<and>
   ''drums'' \<noteq> ''bass'' \<and>
   map_of (mutedStems (toggleMute ''bass'' demo4)) ''drums'' = map_of (mutedStems demo4) ''drums'' \<and>
   (ToggleMute ''bass'' = ToggleMute ''bass'' \<or> ToggleMute ''bass'' = ToggleSolo ''bass'') \<and>
   isPlaying (commit (ToggleMute ''bass'') demo4) = isPlaying demo4"
proof -
  have h1: "''bass'' \<in> set (map fst (mutedStems demo4))" by (simp add: demo4_eval)
  have h2: "''bass'' \<in> set (map fst (soloStems demo4))" by (simp add: demo4_eval)
  have h3: "''drums'' \<noteq> ''bass''" by simp
  have h4: "ToggleMute ''bass'' = ToggleMute ''bass'' \<or> ToggleMute ''bass'' = ToggleSolo ''bass''"
    by simp
  note T = C10_toggles_are_involutions [of "''bass''" demo4]
  from T [THEN conjunct1] h1 have q1: "toggleMute ''bass'' (toggleMute ''bass'' demo4) = demo4"
    by (rule mp)
  from T [THEN conjunct2, THEN conjunct1] h2
  have q2: "toggleSolo ''bass'' (toggleSolo ''bass'' demo4) = demo4"
    by (rule mp)
  from T have "\<forall>j. j \<noteq> ''bass'' \<longrightarrow>
      map_of (mutedStems (toggleMute ''bass'' demo4)) j = map_of (mutedStems demo4) j"
    by (elim conjE)
  with h3 have q3: "map_of (mutedStems (toggleMute ''bass'' demo4)) ''drums''
                    = map_of (mutedStems demo4) ''drums''"
    by (elim allE [of _ "''drums''"]) (erule mp)
  from T have "\<forall>m. m = ToggleMute ''bass'' \<or> m = ToggleSolo ''bass'' \<longrightarrow>
      volumes (commit m demo4) = volumes demo4 \<and>
      currentTime (commit m demo4) = currentTime demo4 \<and>
      isPlaying (commit m demo4) = isPlaying demo4 \<and>
      duration (commit m demo4) = duration demo4 \<and>
      map (\<lambda>t. (track_id t, a_currentTime (audio t), a_paused (audio t)))
        (tracks (commit m demo4))
        = map (\<lambda>t. (track_id t, a_currentTime (audio t), a_paused (audio t))) (tracks demo4)"
    by (elim conjE)
  then have "ToggleMute ''bass'' = ToggleMute ''bass'' \<or> ToggleMute ''bass'' = ToggleSolo ''bass'' \<longrightarrow>
      volumes (commit (ToggleMute ''bass'') demo4) = volumes demo4 \<and>
      currentTime (commit (ToggleMute ''bass'') demo4) = currentTime demo4 \<and>
      isPlaying (commit (ToggleMute ''bass'') demo4) = isPlaying demo4 \<and>
      duration (commit (ToggleMute ''bass'') demo4) = duration demo4 \<and>
      map (\<lambda>t. (track_id t, a_currentTime (audio t), a_paused (audio t)))
        (tracks (commit (ToggleMute ''bass'') demo4))
        = map (\<lambda>t. (track_id t, a_currentTime (audio t), a_paused (audio t))) (tracks demo4)"
    by (rule spec)
  from this h4 have "volumes (commit (ToggleMute ''bass'') demo4) = volumes demo4 \<and>
      currentTime (commit (ToggleMute ''bass'') demo4) = currentTime demo4 \<and>
      isPlaying (commit (ToggleMute ''bass'') demo4) = isPlaying demo4 \<and>
      duration (commit (ToggleMute ''bass'') demo4) = duration demo4 \<and>
      map (\<lambda>t. (track_id t, a_currentTime (audio t), a_paused (audio t)))
        (tracks (commit (ToggleMute ''bass'') demo4))
        = map (\<lambda>t. (track_id t, a_currentTime (audio t), a_paused (audio t))) (tracks demo4)"
    by (rule mp)
  then have q4: "isPlaying (commit (ToggleMute ''bass'') demo4) = isPlaying demo4"
    by (elim conjE)
  from h1 h2 q1 q2 h3 q3 h4 q4 show ?thesis by (intro conjI)
qed

subsection \<open>Mix engine: end of playback\<close>

lemma ended_resets:
  "\<not> isPlaying (ended s) \<and> currentTime (ended s) = 0 \<and>
   list_all (\<lambda>t. a_currentTime (audio t) = 0) (tracks (ended s)) \<and>
   track_ids (ended s) = track_ids s"
  by (simp add: ended_def list_all_iff track_ids_def comp_def)

lemma sim_tick_tracks: "tracks (sim_tick s) = tracks s"
  by (simp add: sim_tick_def)

lemma sim_tick_completion:
  assumes "isPlaying s" "audioUrls s = []" "currentTime s \<ge> duration s"
  shows "\<not> isPlaying (sim_tick s) \<and> currentTime (sim_tick s) = 0"
  using assms by (simp add: sim_tick_def)

lemma seek_positions:
  "list_all (\<lambda>t. a_currentTime (audio t) = time) (tracks (seek time s)) \<and>
   currentTime (seek time s) = time"
  by (simp add: seek_def list_all_iff)




subsection \<open>Mix engine: duration\<close>

lemma loadedmetadata_duration:
  "duration (loadedmetadata c d s) = (if d \<noteq> 0 \<and> d > c then d else duration s)"
  by (simp add: loadedmetadata_def)

lemma metadata_loaded_snoc:
  "metadata_loaded (ds @ [d]) s =
     (loadedmetadata (duration s) d (metadata_loaded ds s))"
  by (simp add: metadata_loaded_def)

text \<open>With the listeners of one render, the duration cell ends at the duration reported
  last among those above the captured value.\<close>

lemma metadata_loaded_last:
  assumes "ds \<noteq> []" and "\<forall>d \<in> set ds. d > duration s \<and> d \<noteq> 0"
  shows "duration (metadata_loaded ds s) = last ds"
  using assms
proof (induction ds rule: rev_induct)
  case Nil
  then show ?case by simp
next
  case (snoc d ds)
  then show ?case by (simp add: metadata_loaded_snoc loadedmetadata_duration)
qed

lemma media2_eval:
  "media2 =
    \<lparr>tracks = [\<lparr>track_id = ''vocals'',
                audio = \<lparr>a_src = ''/audio/vocals.mp3'', a_volume = 4 / 5, a_currentTime = 0,
                         a_paused = True\<rparr>,
                track_volume = 80, isMuted = False, isSolo = False\<rparr>,
               \<lparr>track_id = ''drums'',
                audio = \<lparr>a_src = ''/audio/drums.mp3'', a_volume = 4 / 5, a_currentTime = 0,
                         a_paused = True\<rparr>,
                track_volume = 80, isMuted = False, isSolo = False\<rparr>],
     isPlaying = False, currentTime = 0, duration = 0, isLoaded = False,
     volumes = [(''vocals'', 80), (''drums'', 80)],
     mutedStems = [(''vocals'', False), (''drums'', False)],
     soloStems = [(''vocals'', False), (''drums'', False)],
     audioUrls = [(''vocals'', ''/audio/vocals.mp3''), (''drums'', ''/audio/drums.mp3'')]\<rparr>"
  by (simp add: media2_def mount_def fromEntries_def make_track_def new_Audio_def
      updateTrackVolumes_def effectiveVolume_def hasSolo_def truthy_def)

text \<open>
  C9. Two tracks with media of 200 s and 180 s that report their metadata in this order:
  the duration of the session ends at 180 s, not at the maximum 200 s. Reported in the
  other order it ends at 200 s.
\<close>

theorem C9_duration_is_last_loaded:
  "duration (metadata_loaded [200, 180] media2) = 180 \<and>
   Max (set [200, 180 :: rat]) = 200 \<and>
   duration (metadata_loaded [180, 200] media2) = 200"
  by (simp add: metadata_loaded_def loadedmetadata_def media2_eval)

subsection \<open>Orchestrator: evaluating runs\<close>

lemmas hook_defs =
  hook_init_def invoke_init_def polling_init_def hook.extend_def
  setProgress_def send_def suspend_def resume_def begin_call_def catch_finally_def finish_def

lemmas invoke_defs =
  irun_def separate_def separateFromUrl_def processSeparation_begin_def upload_settled_def
  signed_url_settled_def invoke_settled_def interval_fired_def cancel_def
  separation_result_def getErrorMessage_def errorTypeMap_def stem_label_def STEM_LABELS_def
  isValidUrl_def

lemmas polling_defs =
  prun_def separate_polling_def separateFromUrl_polling_def startSeparation_begin_def
  startSeparation_result_def poll_def start_settled_def filter_selected_def status_settled_def
  upload_settled_polling_def cancel_polling_def TypeError_def stem_label_def
  STEM_LABELS_polling_def

lemmas answer_defs =
  no_payload_def answer_def succeeded_def started_def in_status_def failed_def signed_def

subsection \<open>Orchestrator: outstanding chains\<close>


lemma pending_basic [simp]:
  "pending (setProgress p s) = pending s"
  "pending (send r s) = pending s"
  "pending (suspend c t s) = pending s @ [(c, t)]"
  "pending (resume c s) = filter (\<lambda>(k, t). k \<noteq> c) (pending s)"
  "pending (begin_call s) = pending s"
  "pending (catch_finally m s) = pending s"
  "pending (finish m rs s) = pending s"
  by (simp_all add: hook_defs)









subsection \<open>Orchestrator: the location of the upload\<close>

lemma cancelled_neq [simp]:
  "''Tarolasi URL ervenytelen: '' @ x \<noteq> ''Cancelled''"
  "''Feltoltes sikertelen: '' @ x \<noteq> ''Cancelled''"
  by simp_all





subsection \<open>Orchestrator: result normalisation\<close>

lemma push_stems_append:
  "push_stems table entries results = results @ map (to_stem table) (filter usable entries)"
  by (induction table entries results rule: push_stems.induct) simp_all


lemma invoke_settled_success:
  assumes "map_of (pending s) c = Some AwaitInvoke" and "\<not> cancelledRef s"
    and "filter usable out \<noteq> []"
  shows "stems (istep parses (InvokeSettled c (succeeded out)) s)
           = map (to_stem STEM_LABELS) (filter usable out) \<and>
         stage (progress (istep parses (InvokeSettled c (succeeded out)) s)) = Complete \<and>
         percent (progress (istep parses (InvokeSettled c (succeeded out)) s)) = 100 \<and>
         error (istep parses (InvokeSettled c (succeeded out)) s) = error s"
  using assms
  by (simp add: invoke_settled_def separation_result_def push_stems_append answer_defs
      hook_defs Let_def)





subsection \<open>Orchestrator: empty results and cancellation\<close>

text \<open>The invoke hook refuses a success without usable stems.\<close>

lemma invoke_settled_no_stems:
  assumes "map_of (pending s) c = Some AwaitInvoke" and "\<not> cancelledRef s"
    and "filter usable out = []"
  shows "stage (progress (istep parses (InvokeSettled c (succeeded out)) s)) = Error \<and>
         error (istep parses (InvokeSettled c (succeeded out)) s)
           = Some ''Nem sikerult stem-eket kinyerni a feldolgozas eredmenyebol'' \<and>
         stems (istep parses (InvokeSettled c (succeeded out)) s) = stems s"
  using assms
  by (simp add: invoke_settled_def separation_result_def push_stems_append answer_defs
      hook_defs Let_def)

text \<open>
  C2. The polling hook, answered \<^verbatim>\<open>succeeded\<close> with an empty stem map, ends in stage
  \<^verbatim>\<open>complete\<close> with no stems and no error.
\<close>

theorem C2_polling_empty_success_completes:
  "stage (progress (prun [PCallSeparateFromUrl ''https://host/a.mp3'' None,
                          PStartSettled 0 (started ''p1''),
                          PStatusSettled 0 (succeeded [])] polling_init)) = Complete \<and>
   stems (prun [PCallSeparateFromUrl ''https://host/a.mp3'' None,
                PStartSettled 0 (started ''p1''),
                PStatusSettled 0 (succeeded [])] polling_init) = [] \<and>
   error (prun [PCallSeparateFromUrl ''https://host/a.mp3'' None,
                PStartSettled 0 (started ''p1''),
                PStatusSettled 0 (succeeded [])] polling_init) = None \<and>
   stage (progress (irun URL_parses [CallSeparateFromUrl ''https://host/a.mp3'' ''htdemucs_ft'',
                                     InvokeSettled 0 (succeeded [])] invoke_init)) = Error"
  by (simp add: hook_defs polling_defs invoke_defs answer_defs Let_def)

text \<open>What \<^verbatim>\<open>cancel\<close> does at the moment it is called.\<close>

lemma cancel_now:
  "cancelledRef (cancel s) \<and> \<not> isProcessing (cancel s) \<and>
   progress (cancel s) = \<lparr>stage = Idle, percent = 0, message = ''Megszakitva''\<rparr> \<and>
   error (cancel s) = error s \<and> calls (cancel s) = calls s"
  by (simp add: cancel_def hook_defs)

lemma cancel_polling_now:
  "cancelledRef (cancel_polling p) \<and> \<not> isProcessing (cancel_polling p) \<and>
   progress (cancel_polling p) = \<lparr>stage = Idle, percent = 0, message = ''Cancelled''\<rparr> \<and>
   error (cancel_polling p) = error p \<and> calls (cancel_polling p) = calls p"
  by (simp add: cancel_polling_def hook_defs Let_def split: option.splits)

text \<open>A cancelled polling hook sends no further status request when a timer fires.\<close>

lemma cancelled_poll_sends_nothing:
  "cancelledRef p \<Longrightarrow> calls (pstep (PTimerFired c) p) = calls p"
  by (simp add: poll_def hook_defs split: option.splits ptask.splits)

text \<open>
  C4. A status call is outstanding when \<^verbatim>\<open>cancel\<close> is called and then answers
  \<^verbatim>\<open>failed\<close>: the polling hook stores the error and shows stage \<^verbatim>\<open>error\<close>. Likewise in
  the invoke hook when the upload fails after \<^verbatim>\<open>cancel\<close>.
\<close>

theorem C4_failure_after_cancel_sets_error:
  "cancelledRef (prun [PCallSeparateFromUrl ''https://host/a.mp3'' None,
                PStartSettled 0 (started ''p1''),
                PCallCancel,
                PStatusSettled 0 (failed ''boom'')] polling_init) \<and>
   error (prun [PCallSeparateFromUrl ''https://host/a.mp3'' None,
                PStartSettled 0 (started ''p1''),
                PCallCancel,
                PStatusSettled 0 (failed ''boom'')] polling_init) = Some ''boom'' \<and>
   stage (progress (prun [PCallSeparateFromUrl ''https://host/a.mp3'' None,
                PStartSettled 0 (started ''p1''),
                PCallCancel,
                PStatusSettled 0 (failed ''boom'')] polling_init)) = Error \<and>
   error (irun URL_parses [CallSeparate ''a.mp3'' ''htdemucs_ft'', CallCancel,
                UploadSettled 0 (Some ''network'')] invoke_init)
     = Some ''Feltoltes sikertelen: network'' \<and>
   stage (progress (irun URL_parses [CallSeparate ''a.mp3'' ''htdemucs_ft'', CallCancel,
                UploadSettled 0 (Some ''network'')] invoke_init)) = Error"
  by (simp add: hook_defs polling_defs invoke_defs answer_defs Let_def)

subsection \<open>Orchestrator: progress values\<close>

lemma history_basic [simp]:
  "history (setProgress q s) = history s @ [q]"
  "history (send r s) = history s"
  "history (suspend c t s) = history s"
  "history (resume c s) = history s"
  "history (begin_call s) = history s"
  "history (finish msg rs s) = history s @ [\<lparr>stage = Complete, percent = 100, message = msg\<rparr>]"
  "history (catch_finally msg s) =
     (if msg \<noteq> ''Cancelled'' then history s @ [\<lparr>stage = Error, percent = 0, message = msg\<rparr>]
      else history s)"
  by (simp_all add: hook_defs)

lemma progress_ok_simps [simp]:
  "progress_ok \<lparr>stage = st, percent = n, message = msg\<rparr> \<longleftrightarrow>
     n \<le> 100 \<and> (n = 100 \<longrightarrow> st = Complete)"
  by (simp add: progress_ok_def)

lemma ok_catch_finally:
  "list_all progress_ok (history s) \<Longrightarrow> list_all progress_ok (history (catch_finally msg s))"
  by simp

lemma ok_invoke_handlers:
  assumes "list_all progress_ok (history s)"
  shows "list_all progress_ok (history (separate f m s))"
    and "list_all progress_ok (history (separateFromUrl u m s))"
    and "list_all progress_ok (history (cancel s))"
    and "list_all progress_ok (history (upload_settled c m r s))"
    and "list_all progress_ok (history (signed_url_settled parses c m su s))"
    and "list_all progress_ok (history (invoke_settled ir s))"
  using assms
  by (simp_all add: separate_def separateFromUrl_def cancel_def upload_settled_def
      signed_url_settled_def invoke_settled_def processSeparation_begin_def
      Let_def split: option.splits sum.splits)

lemma ok_interval_fired:
  assumes "list_all progress_ok (history s)"
  shows "list_all progress_ok (history (interval_fired s))"
  using assms by (auto simp: interval_fired_def progress_ok_def min_def)

lemma istep_ok:
  assumes "list_all progress_ok (history s)"
  shows "list_all progress_ok (history (istep parses e s))"
proof (cases e)
  case (UploadSettled c r)
  with assms show ?thesis
    by (auto simp: ok_invoke_handlers split: option.splits itask.splits)
next
  case (SignedUrlSettled c r)
  with assms show ?thesis
    by (auto simp: ok_invoke_handlers split: option.splits itask.splits)
next
  case (InvokeSettled c r)
  with assms show ?thesis
    by (auto simp: ok_invoke_handlers split: option.splits itask.splits)
qed (use assms in \<open>simp_all add: ok_invoke_handlers ok_interval_fired\<close>)

lemma irun_ok:
  "list_all progress_ok (history s) \<Longrightarrow> list_all progress_ok (history (irun parses es s))"
  unfolding irun_def by (induction es arbitrary: s) (simp_all add: istep_ok)

lemma ok_polling_handlers:
  assumes "list_all progress_ok (history s)"
  shows "list_all progress_ok (history (separate_polling f s))"
    and "list_all progress_ok (history (separateFromUrl_polling u sel s))"
    and "list_all progress_ok (history (cancel_polling s))"
    and "list_all progress_ok (history (upload_settled_polling c r pu s))"
    and "list_all progress_ok (history (start_settled c sel ir s))"
    and "list_all progress_ok (history (status_settled c sel pid ir s))"
    and "list_all progress_ok (history (poll c sel pid s))"
  using assms
  by (simp_all add: separate_polling_def separateFromUrl_polling_def cancel_polling_def
      upload_settled_polling_def start_settled_def status_settled_def poll_def
      startSeparation_begin_def Let_def split: option.splits sum.splits)

lemma pstep_ok:
  assumes "list_all progress_ok (history s)"
  shows "list_all progress_ok (history (pstep e s))"
proof (cases e)
  case (PUploadSettled c r u)
  with assms show ?thesis
    by (auto simp: ok_polling_handlers split: option.splits ptask.splits)
next
  case (PStartSettled c r)
  with assms show ?thesis
    by (auto simp: ok_polling_handlers split: option.splits ptask.splits)
next
  case (PStatusSettled c r)
  with assms show ?thesis
    by (auto simp: ok_polling_handlers split: option.splits ptask.splits)
next
  case (PTimerFired c)
  with assms show ?thesis
    by (auto simp: ok_polling_handlers split: option.splits ptask.splits)
qed (use assms in \<open>simp_all add: ok_polling_handlers\<close>)

lemma prun_ok:
  "list_all progress_ok (history s) \<Longrightarrow> list_all progress_ok (history (prun es s))"
  unfolding prun_def by (induction es arbitrary: s) (simp_all add: pstep_ok)

lemma history_init [simp]: "history invoke_init = []" "history polling_init = []"
  by (simp_all add: hook_defs)

text \<open>The simulated ramp.\<close>

lemma interval_fired_ramp:
  "percent (progress s) \<le> percent (progress (interval_fired s)) \<and>
   stage (progress (interval_fired s)) = stage (progress s) \<and>
   (percent (progress s) < 90 \<longrightarrow> percent (progress (interval_fired s)) \<le> 90) \<and>
   (90 \<le> percent (progress s) \<longrightarrow> interval_fired s = s)"
  by (simp add: interval_fired_def hook_defs)

text \<open>Runs of the polling hook over statuses that are not final.\<close>

lemma prun_append: "prun (es @ es') s = prun es' (prun es s)"
  by (simp add: prun_def)

lemma irun_append: "irun parses (es @ es') s = irun parses es' (irun parses es s)"
  by (simp add: irun_def)

lemma poll_round:
  assumes "pending p = [(0, PollStatus sel pid)]" and "\<not> cancelledRef p"
    and "st = ''starting'' \<or> st = ''processing''"
  shows "pending (prun [PStatusSettled 0 (in_status st), PTimerFired 0] p)
           = [(0, PollStatus sel pid)] \<and>
         \<not> cancelledRef (prun [PStatusSettled 0 (in_status st), PTimerFired 0] p) \<and>
         map percent (history (prun [PStatusSettled 0 (in_status st), PTimerFired 0] p))
           = map percent (history p) @ [if st = ''starting'' then 25 else 50]"
proof -
  from assms(3) show ?thesis
  proof
    assume "st = ''starting''"
    with assms(1,2) show ?thesis
      by (simp add: prun_def status_settled_def poll_def answer_defs hook_defs Let_def)
  next
    assume "st = ''processing''"
    with assms(1,2) show ?thesis
      by (simp add: prun_def status_settled_def poll_def answer_defs hook_defs Let_def)
  qed
qed

lemma poll_rounds_Cons:
  "poll_rounds (st # sts) = [PStatusSettled 0 (in_status st), PTimerFired 0] @ poll_rounds sts"
  by (simp add: poll_rounds_def)

lemma poll_rounds_history:
  assumes "pending p = [(0, PollStatus sel pid)]" and "\<not> cancelledRef p"
    and "set sts \<subseteq> {''starting'', ''processing''}"
  shows "pending (prun (poll_rounds sts) p) = [(0, PollStatus sel pid)] \<and>
         \<not> cancelledRef (prun (poll_rounds sts) p) \<and>
         map percent (history (prun (poll_rounds sts) p))
           = map percent (history p) @ map (\<lambda>st. if st = ''starting'' then 25 else 50) sts"
  using assms
proof (induction sts arbitrary: p)
  case Nil
  then show ?case by (simp add: poll_rounds_def prun_def)
next
  case (Cons st sts)
  let ?p1 = "prun [PStatusSettled 0 (in_status st), PTimerFired 0] p"
  from Cons.prems(3) have st: "st = ''starting'' \<or> st = ''processing''" by simp
  note r = poll_round [OF Cons.prems(1,2) st]
  from Cons.prems(3) have "set sts \<subseteq> {''starting'', ''processing''}" by simp
  from Cons.IH [OF r [THEN conjunct1] r [THEN conjunct2, THEN conjunct1] this]
  show ?case
    unfolding poll_rounds_Cons prun_append
    using r [THEN conjunct2, THEN conjunct2] by simp
qed

lemma polling_started:
  "pending (prun [PCallSeparateFromUrl u sel, PStartSettled 0 (started i)] polling_init)
     = [(0, PollStatus sel (Some i))] \<and>
   \<not> cancelledRef (prun [PCallSeparateFromUrl u sel, PStartSettled 0 (started i)] polling_init) \<and>
   map percent (history (prun [PCallSeparateFromUrl u sel, PStartSettled 0 (started i)]
                           polling_init)) = [20]"
  by (simp add: hook_defs polling_defs answer_defs Let_def)

lemma polling_success_history:
  assumes "pending p = [(0, PollStatus sel pid)]"
  shows "map percent (history (pstep (PStatusSettled 0 (succeeded out)) p))
           = map percent (history p) @ [100] \<and>
         stage (progress (pstep (PStatusSettled 0 (succeeded out)) p)) = Complete"
  using assms by (simp add: status_settled_def answer_defs hook_defs Let_def)

lemma polling_run_history:
  assumes "set sts \<subseteq> {''starting'', ''processing''}"
  shows "map percent (history (prun (PCallSeparateFromUrl u sel # PStartSettled 0 (started i) #
                                     poll_rounds sts @ [PStatusSettled 0 (succeeded out)])
                                    polling_init))
         = 20 # map (\<lambda>st. if st = ''starting'' then 25 else 50) sts @ [100]"
proof -
  let ?p0 = "prun [PCallSeparateFromUrl u sel, PStartSettled 0 (started i)] polling_init"
  note s0 = polling_started [of u sel i]
  note r = poll_rounds_history [OF s0 [THEN conjunct1] s0 [THEN conjunct2, THEN conjunct1] assms]
  have split: "PCallSeparateFromUrl u sel # PStartSettled 0 (started i) #
               poll_rounds sts @ [PStatusSettled 0 (succeeded out)]
             = [PCallSeparateFromUrl u sel, PStartSettled 0 (started i)] @
               poll_rounds sts @ [PStatusSettled 0 (succeeded out)]" by simp
  have last: "prun [PStatusSettled 0 (succeeded out)] q = pstep (PStatusSettled 0 (succeeded out)) q"
    for q by (simp add: prun_def)
  show ?thesis
    unfolding split prun_append last
    using polling_success_history [OF r [THEN conjunct1], of out]
      r [THEN conjunct2, THEN conjunct2] s0 [THEN conjunct2, THEN conjunct2]
    by simp
qed

text \<open>A successful run of the invoke hook with any number of ticks of the ramp.\<close>

lemma ramp_ticks:
  assumes "pending s = [(0, AwaitInvoke)]" and "\<not> cancelledRef s"
    and "sorted (map percent (history s))"
    and "\<forall>x \<in> set (history s). percent x \<le> percent (progress s)"
    and "percent (progress s) \<le> 90"
  shows "pending (irun parses (replicate n IntervalFired) s) = [(0, AwaitInvoke)] \<and>
         \<not> cancelledRef (irun parses (replicate n IntervalFired) s) \<and>
         sorted (map percent (history (irun parses (replicate n IntervalFired) s))) \<and>
         (\<forall>x \<in> set (history (irun parses (replicate n IntervalFired) s)).
            percent x \<le> percent (progress (irun parses (replicate n IntervalFired) s))) \<and>
         percent (progress (irun parses (replicate n IntervalFired) s)) \<le> 90"
  using assms
proof (induction n arbitrary: s)
  case 0
  then show ?case by (simp add: irun_def)
next
  case (Suc n)
  let ?s1 = "interval_fired s"
  have 1: "pending ?s1 = [(0, AwaitInvoke)]" "\<not> cancelledRef ?s1"
    using Suc.prems(1,2) by (simp_all add: interval_fired_def hook_defs)
  have 2: "sorted (map percent (history ?s1))"
    using Suc.prems(3,4) by (auto simp: interval_fired_def hook_defs sorted_append)
  have 3: "\<forall>x \<in> set (history ?s1). percent x \<le> percent (progress ?s1)"
    using Suc.prems(4) by (auto simp: interval_fired_def hook_defs)
  have 4: "percent (progress ?s1) \<le> 90"
    using Suc.prems(5) by (simp add: interval_fired_def hook_defs)
  have "irun parses (replicate (Suc n) IntervalFired) s
        = irun parses (replicate n IntervalFired) ?s1"
    by (simp add: irun_def)
  with Suc.IH [OF 1 2 3 4] show ?case by simp
qed

lemma invoke_run_sorted:
  assumes "filter usable out \<noteq> []"
  shows "sorted (map percent (history (irun parses
           (CallSeparateFromUrl u m # replicate n IntervalFired @
            [InvokeSettled 0 (succeeded out)]) invoke_init))) \<and>
         stage (progress (irun parses
           (CallSeparateFromUrl u m # replicate n IntervalFired @
            [InvokeSettled 0 (succeeded out)]) invoke_init)) = Complete"
proof -
  let ?s0 = "irun parses [CallSeparateFromUrl u m] invoke_init"
  let ?s1 = "irun parses (replicate n IntervalFired) ?s0"
  have s0: "pending ?s0 = [(0, AwaitInvoke)]" "\<not> cancelledRef ?s0"
    "sorted (map percent (history ?s0))"
    "\<forall>x \<in> set (history ?s0). percent x \<le> percent (progress ?s0)"
    "percent (progress ?s0) \<le> 90"
    by (simp_all add: irun_def separateFromUrl_def processSeparation_begin_def hook_defs Let_def)
  note r = ramp_ticks [OF s0, of parses n]
  have split: "CallSeparateFromUrl u m # replicate n IntervalFired @
               [InvokeSettled 0 (succeeded out)]
             = [CallSeparateFromUrl u m] @ replicate n IntervalFired @
               [InvokeSettled 0 (succeeded out)]" by simp
  have last: "irun parses [InvokeSettled 0 (succeeded out)] q
              = istep parses (InvokeSettled 0 (succeeded out)) q" for q
    by (simp add: irun_def)
  from r have p: "map_of (pending ?s1) 0 = Some AwaitInvoke" and c: "\<not> cancelledRef ?s1"
    by simp_all
  have h: "history (istep parses (InvokeSettled 0 (succeeded out)) ?s1)
           = history ?s1 @ [\<lparr>stage = Complete, percent = 100, message = ''Szetvalasztas kesz!''\<rparr>]"
    using p c assms
    by (simp add: invoke_settled_def separation_result_def push_stems_append answer_defs
        hook_defs Let_def)
  have le: "\<forall>x \<in> set (history ?s1). percent x \<le> 100"
  proof
    fix x assume "x \<in> set (history ?s1)"
    with r have "percent x \<le> percent (progress ?s1)" by blast
    also from r have "\<dots> \<le> 90" by blast
    finally show "percent x \<le> 100" by simp
  qed
  show ?thesis
    unfolding split irun_append last
    using h r le invoke_settled_success [OF p c assms, of parses]
    by (simp add: sorted_append)
qed

text \<open>
  C5 (as amended). Every progress value a hook stores lies within 0..100 and is 100 only
  together with stage \<^verbatim>\<open>complete\<close>; a tick of the simulated ramp never lowers the value,
  keeps the stage and never passes 90. Neither hook compares a new value with the
  previous one: the polling hook stores 25 for \<^verbatim>\<open>starting\<close> and 50 for \<^verbatim>\<open>processing\<close>, so
  the values are non-decreasing for polled statuses that do not regress (20, then 25s,
  then 50s, then 100 at \<^verbatim>\<open>succeeded\<close>), as they are in a successful run of the invoke hook
  with any number of ticks.
\<close>

theorem C5_progress_bounds:
  "list_all progress_ok (history (irun parses es invoke_init)) \<and>
   list_all progress_ok (history (prun es' polling_init)) \<and>
   percent (progress s) \<le> percent (progress (interval_fired s)) \<and>
   stage (progress (interval_fired s)) = stage (progress s) \<and>
   (percent (progress s) < 90 \<longrightarrow> percent (progress (interval_fired s)) \<le> 90) \<and>
   (90 \<le> percent (progress s) \<longrightarrow> interval_fired s = s) \<and>
   map percent (history (prun (PCallSeparateFromUrl u sel # PStartSettled 0 (started i) #
                               poll_rounds (replicate a ''starting'' @ replicate b ''processing'') @
                               [PStatusSettled 0 (succeeded out)]) polling_init))
     = 20 # replicate a 25 @ replicate b 50 @ [100] \<and>
   sorted (20 # replicate a 25 @ replicate b 50 @ [100 :: nat]) \<and>
   (filter usable out \<noteq> [] \<longrightarrow>
      sorted (map percent (history (irun parses
        (CallSeparateFromUrl u m # replicate n IntervalFired @
         [InvokeSettled 0 (succeeded out)]) invoke_init))))"
proof -
  have a: "list_all progress_ok (history (irun parses es invoke_init))"
    by (rule irun_ok) simp
  have b: "list_all progress_ok (history (prun es' polling_init))"
    by (rule prun_ok) simp
  note c = interval_fired_ramp [of s]
  have d: "map percent (history (prun (PCallSeparateFromUrl u sel # PStartSettled 0 (started i) #
                               poll_rounds (replicate a ''starting'' @ replicate b ''processing'') @
                               [PStatusSettled 0 (succeeded out)]) polling_init))
     = 20 # replicate a 25 @ replicate b 50 @ [100]"
    by (subst polling_run_history) (auto simp: map_replicate_const)
  have e: "sorted (20 # replicate a 25 @ replicate b 50 @ [100 :: nat])"
    by (auto simp: sorted_append)
  have f: "filter usable out \<noteq> [] \<longrightarrow>
      sorted (map percent (history (irun parses
        (CallSeparateFromUrl u m # replicate n IntervalFired @
         [InvokeSettled 0 (succeeded out)]) invoke_init)))"
    using invoke_run_sorted [of out parses u m n] by blast
  show ?thesis
    by (intro conjI a b d e f c [THEN conjunct1] c [THEN conjunct2, THEN conjunct1]
        c [THEN conjunct2, THEN conjunct2, THEN conjunct1]
        c [THEN conjunct2, THEN conjunct2, THEN conjunct2])
qed

theorem C5_counterexample:
  "map percent (history (prun [PCallSeparateFromUrl ''https://host/a.mp3'' None,
                               PStartSettled 0 (started ''p1''),
                               PStatusSettled 0 (in_status ''processing''),
                               PTimerFired 0,
                               PStatusSettled 0 (in_status ''starting'')] polling_init))
     = [20, 50, 25] \<and>
   \<not> sorted (map percent (history (prun [PCallSeparateFromUrl ''https://host/a.mp3'' None,
                               PStartSettled 0 (started ''p1''),
                               PStatusSettled 0 (in_status ''processing''),
                               PTimerFired 0,
                               PStatusSettled 0 (in_status ''starting'')] polling_init)))"
  by (simp add: hook_defs polling_defs answer_defs Let_def)

theorem C5_progress_bounds_witness:
  "map percent (history (prun (PCallSeparateFromUrl ''https://host/a.mp3'' None #
                               PStartSettled 0 (started ''p1'') #
                               poll_rounds [''starting'', ''processing'', ''processing''] @
                               [PStatusSettled 0 (succeeded [(''vocals'', JString ''url1'')])])
                              polling_init))
     = [20, 25, 50, 50, 100] \<and>
   percent (progress (separateFromUrl ''https://host/a.mp3'' ''htdemucs_ft'' invoke_init)) < 90 \<and>
   percent (progress (interval_fired
      (separateFromUrl ''https://host/a.mp3'' ''htdemucs_ft'' invoke_init))) \<le> 90 \<and>
   filter usable [(''vocals'', JString ''url1'')] \<noteq> [] \<and>
   sorted (map percent (history (irun URL_parses
        (CallSeparateFromUrl ''https://host/a.mp3'' ''htdemucs_ft'' # replicate 3 IntervalFired @
         [InvokeSettled 0 (succeeded [(''vocals'', JString ''url1'')])]) invoke_init))) \<and>
   list_all progress_ok (history (prun [PCallSeparateFromUrl ''https://host/a.mp3'' None,
                               PStartSettled 0 (started ''p1''),
                               PStatusSettled 0 (in_status ''processing''),
                               PTimerFired 0,
                               PStatusSettled 0 (in_status ''starting'')] polling_init))"
proof -
  let ?s = "separateFromUrl ''https://host/a.mp3'' ''htdemucs_ft'' invoke_init"
  let ?out = "[(''vocals'', JString ''url1'')]"
  let ?es' = "[PCallSeparateFromUrl ''https://host/a.mp3'' None,
               PStartSettled 0 (started ''p1''),
               PStatusSettled 0 (in_status ''processing''),
               PTimerFired 0,
               PStatusSettled 0 (in_status ''starting'')]"
  note T = C5_progress_bounds [where parses = URL_parses and es = "[]" and es' = ?es'
      and s = ?s and u = "''https://host/a.mp3''" and sel = None and i = "''p1''"
      and a = 1 and b = 2 and out = ?out and m = "''htdemucs_ft''" and n = 3]
  have h1: "percent (progress ?s) < 90"
    by (simp add: separateFromUrl_def processSeparation_begin_def hook_defs Let_def)
  have h2: "filter usable ?out \<noteq> []" by simp
  note T2 = T [THEN conjunct2, THEN conjunct2, THEN conjunct2, THEN conjunct2]
  from h1 T2 [THEN conjunct1] have q1: "percent (progress (interval_fired ?s)) \<le> 90"
    by (rule rev_mp)
  note T3 = T2 [THEN conjunct2, THEN conjunct2]
  have r: "replicate 1 ''starting'' @ replicate 2 ''processing''
           = [''starting'', ''processing'', ''processing'']"
    by (simp add: numeral_2_eq_2)
  have r': "20 # replicate 1 25 @ replicate 2 50 @ [100] = [20, 25, 50, 50, 100 :: nat]"
    by (simp add: numeral_2_eq_2)
  note q2 = T3 [THEN conjunct1, unfolded r r']
  from h2 T3 [THEN conjunct2, THEN conjunct2]
  have q3: "sorted (map percent (history (irun URL_parses
        (CallSeparateFromUrl ''https://host/a.mp3'' ''htdemucs_ft'' # replicate 3 IntervalFired @
         [InvokeSettled 0 (succeeded ?out)]) invoke_init)))"
    by (rule rev_mp)
  note q4 = T [THEN conjunct2, THEN conjunct1]
  from q2 h1 q1 h2 q3 q4 show ?thesis by (intro conjI)
qed

end
